theory Spec2Isabelle
  imports Main "HOL-Library.Sublist"
begin

section \<open>Python values and the built-in operations the program uses\<close>

text \<open>
  The program works on what \<^verbatim>\<open>response.json()\<close> returns: \<^verbatim>\<open>None\<close>, booleans,
  integers, strings, lists and dicts with string keys. A dict is the list of its items in
  insertion order, one item per key. A character of a \<open>string\<close> stands for one code
  point of the Python string, so \<open>length\<close> is Python's \<^verbatim>\<open>len\<close>. Floating-point
  numbers are left out of the value type.
\<close>

datatype json =
    JNull
  | JBool bool
  | JInt int
  | JStr string
  | JList "json list"
  | JObj "(string \<times> json) list"

text \<open>
  The exceptions that the program's own operations can raise, all of them subclasses of
  \<^verbatim>\<open>Exception\<close>. \<open>TimeError\<close> stands for whatever
  \<^verbatim>\<open>datetime.fromtimestamp\<close> raises on a value it cannot convert.
\<close>

datatype exn = AttributeError | TypeError | TimeError

text \<open>
  How a call ends: with a value, with an exception that an \<^verbatim>\<open>except Exception\<close>
  clause catches, or with \<^verbatim>\<open>sys.exit\<close>, whose \<^verbatim>\<open>SystemExit\<close> is no
  \<^verbatim>\<open>Exception\<close> and passes through such clauses.
\<close>

datatype 'a outcome = Return 'a | Raise exn | Exit int

text \<open>What the HTTP library gives for one request.\<close>

datatype response =
    RequestFailed string  \<comment> \<open>a \<^verbatim>\<open>RequestException\<close> (transport, timeout, HTTP status), with its text\<close>
  | NotJson string        \<comment> \<open>a \<^verbatim>\<open>ValueError\<close> of \<^verbatim>\<open>response.json()\<close>, with its text\<close>
  | Body json

text \<open>
  What the program takes from the interpreter and its libraries: the \<^verbatim>\<open>str\<close> of a
  list or dict, the local-time rendering of a number of milliseconds since the epoch
  (\<open>None\<close> when \<^verbatim>\<open>datetime\<close> raises), the text of an exception, and the
  server's answer to the n-th request of the run at a URL.
\<close>

record runtime =
  container_str :: "json \<Rightarrow> string"
  strftime_local :: "int \<Rightarrow> string option"
  exc_text :: "exn \<Rightarrow> string"
  server :: "nat \<Rightarrow> string \<Rightarrow> response"

subsection \<open>Truth value, \<^verbatim>\<open>str\<close>, equality\<close>

fun truthy :: "json \<Rightarrow> bool" where
  "truthy JNull = False"
| "truthy (JBool b) = b"
| "truthy (JInt i) = (i \<noteq> 0)"
| "truthy (JStr s) = (s \<noteq> [])"
| "truthy (JList xs) = (xs \<noteq> [])"
| "truthy (JObj kvs) = (kvs \<noteq> [])"

fun str_nat :: "nat \<Rightarrow> string" where
  "str_nat n =
     (if n < 10 then [char_of (48 + n)]
      else str_nat (n div 10) @ [char_of (48 + n mod 10)])"

declare str_nat.simps [simp del]

definition str_int :: "int \<Rightarrow> string" where
  "str_int i = (if i < 0 then CHR ''-'' # str_nat (nat (- i)) else str_nat (nat i))"

fun py_str :: "runtime \<Rightarrow> json \<Rightarrow> string" where
  "py_str rt JNull = ''None''"
| "py_str rt (JBool b) = (if b then ''True'' else ''False'')"
| "py_str rt (JInt i) = str_int i"
| "py_str rt (JStr s) = s"
| "py_str rt (JList xs) = container_str rt (JList xs)"
| "py_str rt (JObj kvs) = container_str rt (JObj kvs)"

text \<open>
  \<^verbatim>\<open>==\<close> between two values that can be dict keys: \<^verbatim>\<open>True == 1\<close> and
  \<^verbatim>\<open>False == 0\<close>, otherwise values of different types differ.
\<close>

fun py_eq :: "json \<Rightarrow> json \<Rightarrow> bool" where
  "py_eq (JBool b) (JInt i) = (i = (if b then 1 else 0))"
| "py_eq (JInt i) (JBool b) = (i = (if b then 1 else 0))"
| "py_eq x y = (x = y)"

fun hashable :: "json \<Rightarrow> bool" where
  "hashable (JList xs) = False"
| "hashable (JObj kvs) = False"
| "hashable x = True"

subsection \<open>Strings\<close>

text \<open>\<^verbatim>\<open>pat in s\<close> for two strings.\<close>

fun contains :: "string \<Rightarrow> string \<Rightarrow> bool" where
  "contains pat [] = (pat = [])"
| "contains pat (c # cs) = (prefix pat (c # cs) \<or> contains pat cs)"

text \<open>
  \<^verbatim>\<open>s.replace(old, new)\<close>: every occurrence of \<open>old\<close>, found from the left and not
  overlapping the one before, is replaced by \<open>new\<close>; for an empty \<open>old\<close>, \<open>new\<close>
  goes before every character and at the end.
\<close>

fun replace :: "string \<Rightarrow> string \<Rightarrow> string \<Rightarrow> string" where
  "replace [] new s = new @ concat (map (\<lambda>c. c # new) s)"
| "replace (a # old) new [] = []"
| "replace (a # old) new (c # cs) =
     (if prefix (a # old) (c # cs) then new @ replace (a # old) new (drop (length old) cs)
      else c # replace (a # old) new cs)"

text \<open>\<^verbatim>\<open>s.strip(c)\<close> and \<^verbatim>\<open>s.rstrip(c)\<close> for a one-character argument.\<close>

definition rstrip :: "char \<Rightarrow> string \<Rightarrow> string" where
  "rstrip c s = rev (dropWhile (\<lambda>x. x = c) (rev s))"

definition strip :: "char \<Rightarrow> string \<Rightarrow> string" where
  "strip c s = rstrip c (dropWhile (\<lambda>x. x = c) s)"

text \<open>\<^verbatim>\<open>sep.join(xs)\<close>.\<close>

fun join :: "string \<Rightarrow> string list \<Rightarrow> string" where
  "join sep [] = []"
| "join sep [x] = x"
| "join sep (x # y # ys) = x @ sep @ join sep (y # ys)"

text \<open>
  \<^verbatim>\<open>f"{x:<w}"\<close>: a string is padded with spaces on the right up to width \<open>w\<close> and
  never cut; an integer is written in decimal, a boolean as the integer it is; the
  \<^verbatim>\<open>__format__\<close> of \<^verbatim>\<open>None\<close>, of a list and of a dict reject the format
  specification with a \<^verbatim>\<open>TypeError\<close>.
\<close>

definition ljust :: "nat \<Rightarrow> string \<Rightarrow> string" where
  "ljust w s = s @ replicate (w - length s) CHR '' ''"

fun format_left :: "nat \<Rightarrow> json \<Rightarrow> exn + string" where
  "format_left w (JStr s) = Inr (ljust w s)"
| "format_left w (JInt i) = Inr (ljust w (str_int i))"
| "format_left w (JBool b) = Inr (ljust w (if b then ''1'' else ''0''))"
| "format_left w JNull = Inl TypeError"
| "format_left w (JList xs) = Inl TypeError"
| "format_left w (JObj kvs) = Inl TypeError"

subsection \<open>Dicts and iteration\<close>

text \<open>\<^verbatim>\<open>d.get(key)\<close> and \<^verbatim>\<open>d.get(key, default)\<close> on a dict with string keys.\<close>

definition get_default :: "(string \<times> json) list \<Rightarrow> string \<Rightarrow> json \<Rightarrow> json" where
  "get_default kvs k d = (case map_of kvs k of None \<Rightarrow> d | Some v \<Rightarrow> v)"

text \<open>
  \<^verbatim>\<open>x.get(key, default)\<close> on any value: only a dict has the method.
\<close>

fun attr_get :: "json \<Rightarrow> string \<Rightarrow> json \<Rightarrow> exn + json" where
  "attr_get (JObj kvs) k d = Inr (get_default kvs k d)"
| "attr_get x k d = Inl AttributeError"

text \<open>
  \<^verbatim>\<open>for x in v\<close>: a list gives its elements, a dict its keys, a string its
  characters; \<^verbatim>\<open>None\<close>, booleans and integers are not iterable.
\<close>

fun py_iter :: "json \<Rightarrow> exn + json list" where
  "py_iter (JList xs) = Inr xs"
| "py_iter (JObj kvs) = Inr (map (\<lambda>kv. JStr (fst kv)) kvs)"
| "py_iter (JStr s) = Inr (map (\<lambda>c. JStr [c]) s)"
| "py_iter x = Inl TypeError"

text \<open>
  \<^verbatim>\<open>key in v\<close> for a string \<open>key\<close>: a key of the dict, an element of the list, a
  substring of the string.
\<close>

fun str_in :: "string \<Rightarrow> json \<Rightarrow> exn + bool" where
  "str_in k (JObj kvs) = Inr (k \<in> set (map fst kvs))"
| "str_in k (JList xs) = Inr (JStr k \<in> set xs)"
| "str_in k (JStr s) = Inr (contains k s)"
| "str_in k x = Inl TypeError"

text \<open>\<^verbatim>\<open>v.replace(old, new)\<close> on any value: only a string has the method.\<close>

fun attr_replace :: "json \<Rightarrow> string \<Rightarrow> string \<Rightarrow> exn + json" where
  "attr_replace (JStr s) old new = Inr (JStr (replace old new s))"
| "attr_replace x old new = Inl AttributeError"

section \<open>The program\<close>

subsection \<open>\<^verbatim>\<open>_color_to_status\<close>\<close>

definition color_map :: "(string \<times> string) list" where
  "color_map =
     [(''blue'', ''SUCCESS''),
      (''red'', ''FAILURE''),
      (''yellow'', ''UNSTABLE''),
      (''grey'', ''NOT_BUILT''),
      (''disabled'', ''DISABLED''),
      (''aborted'', ''ABORTED''),
      (''blue_anime'', ''BUILDING''),
      (''red_anime'', ''BUILDING''),
      (''yellow_anime'', ''BUILDING'')]"

text \<open>
  \<^verbatim>\<open>color_map.get(color, 'UNKNOWN')\<close>: the keys are strings, so a value that is not a
  string finds none; a list or dict cannot be hashed.
\<close>

fun color_to_status :: "json \<Rightarrow> exn + string" where
  "color_to_status (JStr c) = Inr (case map_of color_map c of None \<Rightarrow> ''UNKNOWN'' | Some s \<Rightarrow> s)"
| "color_to_status (JList xs) = Inl TypeError"
| "color_to_status (JObj kvs) = Inl TypeError"
| "color_to_status x = Inr ''UNKNOWN''"

subsection \<open>Endpoints\<close>

text \<open>
  The endpoint strings that \<^verbatim>\<open>list_jobs\<close>, \<^verbatim>\<open>job_history\<close> and
  \<^verbatim>\<open>_display_build_details\<close> build from the path they hold; the first two have
  stripped it before.
\<close>

definition list_jobs_endpoint :: "string \<Rightarrow> string" where
  "list_jobs_endpoint workspace = ''/job/'' @ workspace @ ''/api/json?tree=jobs[name,url,color]''"

definition job_endpoint :: "string \<Rightarrow> string" where
  "job_endpoint job_path =
     ''/job/'' @ replace ''/'' ''/job/'' job_path @ ''/api/json?tree=builds[number,url]''"

definition build_endpoint :: "runtime \<Rightarrow> string \<Rightarrow> json \<Rightarrow> string" where
  "build_endpoint rt job_path build_number =
     ''/job/'' @ replace ''/'' ''/job/'' job_path @ ''/'' @ py_str rt build_number @ ''/api/json''"

subsection \<open>Sequencing of calls that may raise\<close>

definition bind_exn :: "exn + 'a \<Rightarrow> ('a \<Rightarrow> exn + 'b) \<Rightarrow> exn + 'b" where
  "bind_exn m f = (case m of Inl e \<Rightarrow> Inl e | Inr x \<Rightarrow> f x)"

subsection \<open>\<^verbatim>\<open>_extract_trigger_info\<close>\<close>

text \<open>
  The body of the inner loop for one cause: \<open>Some v\<close> when a \<^verbatim>\<open>return v\<close> is
  reached, \<open>None\<close> when neither branch is taken and the loop goes on.
\<close>

definition cause_trigger :: "json \<Rightarrow> exn + json option" where
  "cause_trigger cause =
     bind_exn (str_in ''userId'' cause) (\<lambda>has_user.
       if has_user then
         bind_exn (attr_get cause ''userId'' (JStr ''Unknown User'')) (\<lambda>v. Inr (Some v))
       else
         bind_exn (str_in ''shortDescription'' cause) (\<lambda>has_desc.
           if has_desc then
             bind_exn (attr_get cause ''shortDescription'' (JStr [])) (\<lambda>desc.
             bind_exn (str_in ''Started by user'' desc) (\<lambda>by_user.
               if by_user then
                 bind_exn (attr_replace desc ''Started by user '' []) (\<lambda>v. Inr (Some v))
               else
                 bind_exn (str_in ''Started by'' desc) (\<lambda>by_any.
                   if by_any then
                     bind_exn (attr_replace desc ''Started by '' []) (\<lambda>v. Inr (Some v))
                   else Inr (Some (JStr ''SCM/Timer'')))))
           else Inr None))"

fun causes_loop :: "json list \<Rightarrow> exn + json option" where
  "causes_loop [] = Inr None"
| "causes_loop (cause # causes) =
     bind_exn (cause_trigger cause) (\<lambda>r.
       case r of Some v \<Rightarrow> Inr (Some v) | None \<Rightarrow> causes_loop causes)"

fun trigger_loop :: "json list \<Rightarrow> exn + json" where
  "trigger_loop [] = Inr (JStr ''Unknown'')"
| "trigger_loop (action # actions) =
     bind_exn (attr_get action ''_class'' JNull) (\<lambda>cls.
       if cls = JStr ''hudson.model.CauseAction'' then
         bind_exn (attr_get action ''causes'' (JList [])) (\<lambda>causes.
         bind_exn (py_iter causes) (\<lambda>cs.
         bind_exn (causes_loop cs) (\<lambda>r.
           case r of Some v \<Rightarrow> Inr v | None \<Rightarrow> trigger_loop actions)))
       else trigger_loop actions)"

definition extract_trigger_info :: "json \<Rightarrow> exn + json" where
  "extract_trigger_info actions = bind_exn (py_iter actions) trigger_loop"

subsection \<open>\<^verbatim>\<open>_extract_parameters\<close>\<close>

text \<open>
  The dict \<^verbatim>\<open>parameters\<close>: its items in insertion order. Storing under a key that
  is already there (up to \<^verbatim>\<open>==\<close>) keeps the key and its place and changes the
  value.
\<close>

type_synonym pydict = "(json \<times> string) list"

fun dict_set :: "pydict \<Rightarrow> json \<Rightarrow> string \<Rightarrow> pydict" where
  "dict_set [] k v = [(k, v)]"
| "dict_set ((k', v') # d) k v =
     (if py_eq k' k then (k', v) # d else (k', v') # dict_set d k v)"

definition dict_get :: "pydict \<Rightarrow> json \<Rightarrow> string option" where
  "dict_get d k = map_option snd (find (\<lambda>kv. py_eq (fst kv) k) d)"

definition param_step :: "runtime \<Rightarrow> pydict \<Rightarrow> json \<Rightarrow> exn + pydict" where
  "param_step rt parameters param =
     bind_exn (attr_get param ''name'' (JStr [])) (\<lambda>name.
     bind_exn (attr_get param ''value'' (JStr [])) (\<lambda>value.
       if truthy name \<and> truthy value then
         (if hashable name then Inr (dict_set parameters name (py_str rt value))
          else Inl TypeError)
       else Inr parameters))"

fun params_loop :: "runtime \<Rightarrow> pydict \<Rightarrow> json list \<Rightarrow> exn + pydict" where
  "params_loop rt parameters [] = Inr parameters"
| "params_loop rt parameters (param # params) =
     bind_exn (param_step rt parameters param) (\<lambda>parameters'.
       params_loop rt parameters' params)"

fun parameters_loop :: "runtime \<Rightarrow> pydict \<Rightarrow> json list \<Rightarrow> exn + pydict" where
  "parameters_loop rt parameters [] = Inr parameters"
| "parameters_loop rt parameters (action # actions) =
     bind_exn (attr_get action ''_class'' JNull) (\<lambda>cls.
       if cls = JStr ''hudson.model.ParametersAction'' then
         bind_exn (attr_get action ''parameters'' (JList [])) (\<lambda>params.
         bind_exn (py_iter params) (\<lambda>ps.
         bind_exn (params_loop rt parameters ps) (\<lambda>parameters'.
           parameters_loop rt parameters' actions)))
       else parameters_loop rt parameters actions)"

definition extract_parameters :: "runtime \<Rightarrow> json \<Rightarrow> exn + pydict" where
  "extract_parameters rt actions =
     bind_exn (py_iter actions) (parameters_loop rt [])"

subsection \<open>\<^verbatim>\<open>_format_parameters\<close>\<close>

definition param_strs :: "runtime \<Rightarrow> pydict \<Rightarrow> string list" where
  "param_strs rt parameters = map (\<lambda>kv. py_str rt (fst kv) @ ''='' @ snd kv) parameters"

definition format_parameters :: "runtime \<Rightarrow> pydict \<Rightarrow> string" where
  "format_parameters rt parameters =
     (if parameters = [] then ''None''
      else let result = join '', '' (param_strs rt parameters)
           in if length result > 25 then take 22 result @ ''...'' else result)"

subsection \<open>Requests and output\<close>

text \<open>
  The state of a run: how many requests were made, and what each \<^verbatim>\<open>print\<close> call
  wrote, oldest first.
\<close>

record world =
  requests :: nat
  printed :: "string list"

definition print :: "string \<Rightarrow> world \<Rightarrow> world" where
  "print s w = w\<lparr>printed := printed w @ [s]\<rparr>"

definition base_url :: string where
  "base_url = rstrip CHR ''/'' ''http://localhost:8080''"

text \<open>
  \<^verbatim>\<open>JenkinsClient.get\<close>: both \<^verbatim>\<open>except\<close> clauses print and call
  \<^verbatim>\<open>sys.exit(1)\<close>.
\<close>

definition client_get :: "runtime \<Rightarrow> string \<Rightarrow> world \<Rightarrow> json outcome \<times> world" where
  "client_get rt endpoint w =
     (let url = base_url @ endpoint;
          w' = w\<lparr>requests := requests w + 1\<rparr>
      in case server rt (requests w) url of
           Body j \<Rightarrow> (Return j, w')
         | RequestFailed msg \<Rightarrow>
             (Exit 1, print (''Error making request to '' @ url @ '': '' @ msg) w')
         | NotJson msg \<Rightarrow>
             (Exit 1, print (''Error parsing JSON response: '' @ msg) w'))"

subsection \<open>\<^verbatim>\<open>_display_build_details\<close>\<close>

text \<open>
  The timestamp column. \<^verbatim>\<open>timestamp / 1000\<close> is defined for an integer and for
  \<^verbatim>\<open>True\<close>, which is 1; a non-empty string, list or dict raises
  \<^verbatim>\<open>TypeError\<close>.
\<close>

definition build_time :: "runtime \<Rightarrow> json \<Rightarrow> exn + string" where
  "build_time rt timestamp =
     (if truthy timestamp then
        (case timestamp of
           JInt i \<Rightarrow> (case strftime_local rt i of None \<Rightarrow> Inl TimeError | Some s \<Rightarrow> Inr s)
         | JBool b \<Rightarrow> (case strftime_local rt 1 of None \<Rightarrow> Inl TimeError | Some s \<Rightarrow> Inr s)
         | _ \<Rightarrow> Inl TypeError)
      else Inr ''Unknown'')"

text \<open>
  The \<^verbatim>\<open>try\<close> block after the request: the row that is printed, or the exception
  that ends the block.
\<close>

definition build_row :: "runtime \<Rightarrow> json \<Rightarrow> json \<Rightarrow> exn + string" where
  "build_row rt build_number build_data =
     bind_exn (attr_get build_data ''result'' (JStr ''UNKNOWN'')) (\<lambda>result.
     bind_exn (attr_get build_data ''timestamp'' (JInt 0)) (\<lambda>timestamp.
     bind_exn (attr_get build_data ''duration'' (JInt 0)) (\<lambda>duration.
     bind_exn (attr_get build_data ''actions'' (JList [])) (\<lambda>causes.
     bind_exn (extract_trigger_info causes) (\<lambda>triggered_by.
     bind_exn (attr_get build_data ''actions'' (JList [])) (\<lambda>actions.
     bind_exn (extract_parameters rt actions) (\<lambda>parameters.
     bind_exn (build_time rt timestamp) (\<lambda>time_str.
     let params_str = format_parameters rt parameters in
     bind_exn (format_left 8 build_number) (\<lambda>c1.
     bind_exn (format_left 12 result) (\<lambda>c2.
     bind_exn (format_left 20 triggered_by) (\<lambda>c3.
       Inr (c1 @ '' '' @ c2 @ '' '' @ c3 @ '' '' @ ljust 20 time_str
              @ '' '' @ ljust 30 params_str))))))))))))"

definition build_error_line :: "runtime \<Rightarrow> json \<Rightarrow> exn \<Rightarrow> string" where
  "build_error_line rt build_number e =
     ''Error getting details for build #'' @ py_str rt build_number @ '': '' @ exc_text rt e"

text \<open>
  What is printed for a build whose request has returned \<open>build_data\<close>: the row, or the
  line of the \<^verbatim>\<open>except Exception\<close> clause.
\<close>

definition build_line :: "runtime \<Rightarrow> json \<Rightarrow> json \<Rightarrow> string" where
  "build_line rt build_number build_data =
     (case build_row rt build_number build_data of
        Inr row \<Rightarrow> row
      | Inl e \<Rightarrow> build_error_line rt build_number e)"

definition display_build_details ::
  "runtime \<Rightarrow> string \<Rightarrow> json \<Rightarrow> world \<Rightarrow> unit outcome \<times> world" where
  "display_build_details rt job_path build_number w =
     (case client_get rt (build_endpoint rt job_path build_number) w of
        (Return build_data, w') \<Rightarrow> (Return (), print (build_line rt build_number build_data) w')
      | (Raise e, w') \<Rightarrow> (Return (), print (build_error_line rt build_number e) w')
      | (Exit code, w') \<Rightarrow> (Exit code, w'))"

subsection \<open>\<^verbatim>\<open>job_history\<close>\<close>

text \<open>
  \<^verbatim>\<open>builds[:20]\<close> and \<^verbatim>\<open>len(builds)\<close>: a list or a string can be sliced, a dict,
  an integer and a boolean cannot.
\<close>

fun first_twenty :: "json \<Rightarrow> exn + json list" where
  "first_twenty (JList xs) = Inr (take 20 xs)"
| "first_twenty (JStr s) = Inr (map (\<lambda>c. JStr [c]) (take 20 s))"
| "first_twenty x = Inl TypeError"

fun py_len :: "json \<Rightarrow> exn + nat" where
  "py_len (JList xs) = Inr (length xs)"
| "py_len (JStr s) = Inr (length s)"
| "py_len (JObj kvs) = Inr (length kvs)"
| "py_len x = Inl TypeError"

fun builds_loop :: "runtime \<Rightarrow> string \<Rightarrow> json list \<Rightarrow> world \<Rightarrow> unit outcome \<times> world" where
  "builds_loop rt job_path [] w = (Return (), w)"
| "builds_loop rt job_path (build # builds) w =
     (case attr_get build ''number'' JNull of
        Inl e \<Rightarrow> (Raise e, w)
      | Inr build_number \<Rightarrow>
          (case display_build_details rt job_path build_number w of
             (Return u, w') \<Rightarrow> builds_loop rt job_path builds w'
           | (Raise e, w') \<Rightarrow> (Raise e, w')
           | (Exit code, w') \<Rightarrow> (Exit code, w')))"

definition history_header :: string where
  "history_header =
     ljust 8 ''Build#'' @ '' '' @ ljust 12 ''Status'' @ '' '' @ ljust 20 ''Triggered By''
       @ '' '' @ ljust 20 ''Timestamp'' @ '' '' @ ljust 30 ''Parameters''"

text \<open>The \<^verbatim>\<open>try\<close> block of \<^verbatim>\<open>job_history\<close>; \<open>job_path\<close> is already stripped.\<close>

definition job_history_body :: "runtime \<Rightarrow> string \<Rightarrow> world \<Rightarrow> unit outcome \<times> world" where
  "job_history_body rt job_path w =
     (case client_get rt (job_endpoint job_path) w of
        (Raise e, w1) \<Rightarrow> (Raise e, w1)
      | (Exit code, w1) \<Rightarrow> (Exit code, w1)
      | (Return job_data, w1) \<Rightarrow>
          (case attr_get job_data ''builds'' (JList []) of
             Inl e \<Rightarrow> (Raise e, w1)
           | Inr builds \<Rightarrow>
               if \<not> truthy builds then
                 (Return (), print (''No build history found for job: '' @ job_path) w1)
               else
                 let w2 = print (replicate 120 CHR ''-'')
                            (print history_header
                              (print (replicate 120 CHR ''-'')
                                (print (CHR 0x0A # ''Build history for job: '' @ job_path) w1)))
                 in (case first_twenty builds of
                       Inl e \<Rightarrow> (Raise e, w2)
                     | Inr shown \<Rightarrow>
                         (case builds_loop rt job_path shown w2 of
                            (Raise e, w3) \<Rightarrow> (Raise e, w3)
                          | (Exit code, w3) \<Rightarrow> (Exit code, w3)
                          | (Return u, w3) \<Rightarrow>
                              (case py_len builds of
                                 Inl e \<Rightarrow> (Raise e, w3)
                               | Inr n \<Rightarrow>
                                   if n > 20 then
                                     (Return (),
                                      print (CHR 0x0A # ''... and '' @ str_nat (n - 20)
                                               @ '' more builds (showing last 20)'') w3)
                                   else (Return (), w3))))))"

definition job_history :: "runtime \<Rightarrow> string \<Rightarrow> world \<Rightarrow> unit outcome \<times> world" where
  "job_history rt job_path0 w =
     (let job_path = strip CHR ''/'' job_path0
      in case job_history_body rt job_path w of
           (Raise e, w') \<Rightarrow>
             (Exit 1,
              print (''Error getting build history for job '' @ job_path @ '': '' @ exc_text rt e) w')
         | r \<Rightarrow> r)"

subsection \<open>\<^verbatim>\<open>list_jobs\<close>\<close>

definition job_row :: "json \<Rightarrow> exn + string" where
  "job_row job =
     bind_exn (attr_get job ''name'' (JStr ''Unknown'')) (\<lambda>name.
     bind_exn (attr_get job ''color'' (JStr ''unknown'')) (\<lambda>color.
     bind_exn (color_to_status color) (\<lambda>status.
     bind_exn (format_left 40 name) (\<lambda>c1.
       Inr (c1 @ '' '' @ ljust 15 status)))))"

fun jobs_loop :: "json list \<Rightarrow> world \<Rightarrow> unit outcome \<times> world" where
  "jobs_loop [] w = (Return (), w)"
| "jobs_loop (job # jobs) w =
     (case job_row job of
        Inl e \<Rightarrow> (Raise e, w)
      | Inr row \<Rightarrow> jobs_loop jobs (print row w))"

definition list_jobs_body :: "runtime \<Rightarrow> string \<Rightarrow> world \<Rightarrow> unit outcome \<times> world" where
  "list_jobs_body rt workspace w =
     (case client_get rt (list_jobs_endpoint workspace) w of
        (Raise e, w1) \<Rightarrow> (Raise e, w1)
      | (Exit code, w1) \<Rightarrow> (Exit code, w1)
      | (Return data, w1) \<Rightarrow>
          (case attr_get data ''jobs'' (JList []) of
             Inl e \<Rightarrow> (Raise e, w1)
           | Inr jobs \<Rightarrow>
               if \<not> truthy jobs then
                 (Return (), print (''No jobs found in workspace: /'' @ workspace) w1)
               else
                 let w2 = print (replicate 60 CHR ''-'')
                            (print (ljust 40 ''Job Name'' @ '' '' @ ljust 15 ''Status'')
                              (print (replicate 60 CHR ''-'')
                                (print (CHR 0x0A # ''Jobs in workspace /'' @ workspace @ '':'') w1)))
                 in (case py_iter jobs of
                       Inl e \<Rightarrow> (Raise e, w2)
                     | Inr js \<Rightarrow>
                         (case jobs_loop js w2 of
                            (Raise e, w3) \<Rightarrow> (Raise e, w3)
                          | (Exit code, w3) \<Rightarrow> (Exit code, w3)
                          | (Return u, w3) \<Rightarrow>
                              (case py_len jobs of
                                 Inl e \<Rightarrow> (Raise e, w3)
                               | Inr n \<Rightarrow>
                                   (Return (),
                                    print (CHR 0x0A # ''Total jobs: '' @ str_nat n) w3))))))"

definition list_jobs :: "runtime \<Rightarrow> string \<Rightarrow> world \<Rightarrow> unit outcome \<times> world" where
  "list_jobs rt workspace0 w =
     (let workspace = strip CHR ''/'' workspace0
      in case list_jobs_body rt workspace w of
           (Raise e, w') \<Rightarrow>
             (Exit 1,
              print (''Error listing jobs in workspace /'' @ workspace @ '': '' @ exc_text rt e) w')
         | r \<Rightarrow> r)"

section \<open>The parameter map in the words of the specification\<close>

text \<open>
  The specification describes the result of \<^verbatim>\<open>_extract_parameters\<close> without the
  loops: take the parameters of every ParametersAction, in the order of the actions and of
  each list; keep those whose name and value are both non-empty (true, for Python); the
  value of a name is the \<^verbatim>\<open>str\<close> of the value of the last kept parameter with that
  name. \<open>spec_parameters\<close> is this description, to be compared with the map that the
  code builds.
\<close>

definition param_name :: "json \<Rightarrow> json" where
  "param_name p = (case p of JObj kvs \<Rightarrow> get_default kvs ''name'' (JStr []) | _ \<Rightarrow> JNull)"

definition param_value :: "json \<Rightarrow> json" where
  "param_value p = (case p of JObj kvs \<Rightarrow> get_default kvs ''value'' (JStr []) | _ \<Rightarrow> JNull)"

definition action_parameters :: "json \<Rightarrow> json list" where
  "action_parameters a =
     (case a of
        JObj kvs \<Rightarrow>
          if get_default kvs ''_class'' JNull = JStr ''hudson.model.ParametersAction'' then
            (case py_iter (get_default kvs ''parameters'' (JList [])) of
               Inr ps \<Rightarrow> ps
             | Inl e \<Rightarrow> [])
          else []
      | _ \<Rightarrow> [])"

definition all_parameters :: "json list \<Rightarrow> json list" where
  "all_parameters as = concat (map action_parameters as)"

definition kept :: "json \<Rightarrow> bool" where
  "kept p = (truthy (param_name p) \<and> truthy (param_value p))"

definition last_param :: "json \<Rightarrow> json list \<Rightarrow> json option" where
  "last_param k ps = find (\<lambda>p. py_eq (param_name p) k) (rev (filter kept ps))"

definition spec_parameters :: "runtime \<Rightarrow> json list \<Rightarrow> json \<Rightarrow> string option" where
  "spec_parameters rt as k =
     map_option (\<lambda>p. py_str rt (param_value p)) (last_param k (all_parameters as))"

section \<open>The requests of the build loop\<close>



section \<open>Facts about the built-in operations\<close>

lemma base_url_eq: "base_url = ''http://localhost:8080''"
  by (simp add: base_url_def rstrip_def)

lemma replace_char: "replace [a] new s = concat (map (\<lambda>c. if c = a then new else [c]) s)"
  by (induction s) auto

lemma rstrip_decomp: "s = rstrip c s @ rev (takeWhile (\<lambda>x. x = c) (rev s))"
proof -
  have "rev s = takeWhile (\<lambda>x. x = c) (rev s) @ dropWhile (\<lambda>x. x = c) (rev s)"
    by (rule takeWhile_dropWhile_id [symmetric])
  then have "rev (rev s) = rev (takeWhile (\<lambda>x. x = c) (rev s) @ dropWhile (\<lambda>x. x = c) (rev s))"
    by (rule arg_cong)
  then show ?thesis
    by (simp only: rev_rev_ident rev_append rstrip_def)
qed

lemma rstrip_last: "rstrip c s \<noteq> [] \<Longrightarrow> last (rstrip c s) \<noteq> c"
proof -
  assume ne: "rstrip c s \<noteq> []"
  let ?r = "dropWhile (\<lambda>x. x = c) (rev s)"
  from ne have "rev ?r \<noteq> []" unfolding rstrip_def .
  then have rne: "?r \<noteq> []" by (simp only: rev_is_Nil_conv simp_thms)
  have "hd ?r \<noteq> c" using rne by (rule hd_dropWhile)
  moreover have "last (rev ?r) = hd ?r" by (rule last_rev)
  ultimately show ?thesis by (simp only: rstrip_def simp_thms)
qed

lemma rstrip_hd: "rstrip c s \<noteq> [] \<Longrightarrow> hd (rstrip c s) = hd s"
  using rstrip_decomp [of s c] by (metis hd_append2)

lemma strip_decomp:
  "\<exists>a b. p = a @ strip c p @ b \<and> set a \<subseteq> {c} \<and> set b \<subseteq> {c}"
proof (intro exI conjI)
  show "p = takeWhile (\<lambda>x. x = c) p @ strip c p
          @ rev (takeWhile (\<lambda>x. x = c) (rev (dropWhile (\<lambda>x. x = c) p)))"
    using rstrip_decomp [of "dropWhile (\<lambda>x. x = c) p" c]
    by (metis strip_def takeWhile_dropWhile_id)
  show "set (takeWhile (\<lambda>x. x = c) p) \<subseteq> {c}"
    by (auto dest: set_takeWhileD)
  show "set (rev (takeWhile (\<lambda>x. x = c) (rev (dropWhile (\<lambda>x. x = c) p)))) \<subseteq> {c}"
    by (auto dest: set_takeWhileD)
qed

lemma strip_ends:
  assumes "strip c p \<noteq> []"
  shows "hd (strip c p) \<noteq> c \<and> last (strip c p) \<noteq> c"
proof
  have "dropWhile (\<lambda>x. x = c) p \<noteq> []"
  proof
    assume "dropWhile (\<lambda>x. x = c) p = []"
    then have "strip c p = []" by (simp only: strip_def rstrip_def dropWhile.simps rev.simps)
    with assms show False by (rule notE)
  qed
  then have "hd (dropWhile (\<lambda>x. x = c) p) \<noteq> c"
    by (rule hd_dropWhile)
  then show "hd (strip c p) \<noteq> c"
    using assms rstrip_hd [of c "dropWhile (\<lambda>x. x = c) p"] by (simp add: strip_def)
  show "last (strip c p) \<noteq> c"
    using assms rstrip_last [of c "dropWhile (\<lambda>x. x = c) p"] by (simp add: strip_def)
qed

lemma join_Cons: "join sep (x # ys) = x @ concat (map (\<lambda>y. sep @ y) ys)"
  by (induction ys arbitrary: x) auto

lemma contains_append: "contains (p @ q) s \<Longrightarrow> contains p s"
  by (induction s) (auto dest: append_prefixD)

lemma contains_Started_by: "contains ''Started by user'' d \<Longrightarrow> contains ''Started by'' d"
  using contains_append [of "''Started by''" "'' user''" d] by simp

subsection \<open>Trigger extraction\<close>

lemma cause_trigger_no_keys:
  "map_of ckv ''userId'' = None \<Longrightarrow> map_of ckv ''shortDescription'' = None
   \<Longrightarrow> cause_trigger (JObj ckv) = Inr None"
  by (simp add: cause_trigger_def bind_exn_def map_of_eq_None_iff)

lemma causes_loop_append:
  "\<forall>c\<in>set pre. cause_trigger c = Inr None \<Longrightarrow> causes_loop (pre @ post) = causes_loop post"
  by (induction pre) (simp_all add: bind_exn_def)

lemma causes_loop_Some:
  "causes_loop cs = Inr (Some v) \<Longrightarrow> \<exists>c\<in>set cs. cause_trigger c = Inr (Some v)"
proof (induction cs)
  case Nil
  then show ?case by simp
next
  case (Cons c cs)
  then show ?case
    by (cases "cause_trigger c") (auto simp: bind_exn_def split: option.splits)
qed

lemma replace_Nil_repetition:
  "replace p [] s = [] \<Longrightarrow> p \<noteq> [] \<Longrightarrow> \<exists>n. s = concat (replicate n p)"
proof (induction p "[] :: string" s rule: replace.induct)
  case (1 s)
  then show ?case by simp
next
  case (2 a old)
  have "[] = concat (replicate 0 (a # old))" by simp
  then show ?case by blast
next
  case (3 a old c cs)
  show ?case
  proof (cases "prefix (a # old) (c # cs)")
    case True
    then obtain rest where rest: "c # cs = (a # old) @ rest"
      by (auto simp: prefix_def)
    then have d: "drop (length old) cs = rest" by simp
    from 3(3) True have "replace (a # old) [] (drop (length old) cs) = []" by simp
    with 3(1) True obtain n where "drop (length old) cs = concat (replicate n (a # old))"
      by blast
    with d rest have "c # cs = concat (replicate (Suc n) (a # old))" by simp
    then show ?thesis by blast
  next
    case False
    with 3(3) show ?thesis by (auto split: if_splits)
  qed
qed

lemma removed_prefix_nonempty:
  assumes "contains q d" and "q \<noteq> []" and "p \<noteq> []"
    and "\<forall>n. d \<noteq> concat (replicate (Suc n) p)"
  shows "replace p [] d \<noteq> []"
proof
  assume "replace p [] d = []"
  with assms(3) obtain n where n: "d = concat (replicate n p)"
    using replace_Nil_repetition by blast
  show False
  proof (cases n)
    case 0
    with n have "d = []" by simp
    with assms(1,2) show False by simp
  next
    case (Suc m)
    with n assms(4) show False by blast
  qed
qed

lemma repetition_first: "c # s = concat (replicate n (a # p)) \<Longrightarrow> c = a"
  by (cases n) simp_all

lemma cause_trigger_nonempty:
  assumes r: "cause_trigger c = Inr (Some v)"
    and user: "\<And>ckv u. c = JObj ckv \<Longrightarrow> map_of ckv ''userId'' = Some u \<Longrightarrow> \<exists>s. u = JStr s \<and> s \<noteq> []"
    and desc: "\<And>ckv d n. c = JObj ckv \<Longrightarrow> map_of ckv ''shortDescription'' = Some (JStr d) \<Longrightarrow>
                d \<noteq> concat (replicate (Suc n) ''Started by user '')
                \<and> d \<noteq> concat (replicate (Suc n) ''Started by '')"
  shows "\<exists>s. v = JStr s \<and> s \<noteq> []"
proof (cases c)
  case (JObj ckv)
  show ?thesis
  proof (cases "map_of ckv ''userId''")
    case (Some u)
    then have "''userId'' \<in> set (map fst ckv)"
      by (metis map_of_eq_None_iff option.distinct(1) set_map)
    with r JObj Some have "v = u"
      by (simp add: cause_trigger_def bind_exn_def get_default_def)
    with user [OF JObj Some] show ?thesis by simp
  next
    case None
    then have nu: "''userId'' \<notin> set (map fst ckv)"
      by (simp add: map_of_eq_None_iff)
    show ?thesis
    proof (cases "map_of ckv ''shortDescription''")
      case None
      then have "''shortDescription'' \<notin> set (map fst ckv)"
        by (simp add: map_of_eq_None_iff)
      with r JObj nu show ?thesis
        by (simp add: cause_trigger_def bind_exn_def)
    next
      case (Some dv)
      then have sd: "''shortDescription'' \<in> set (map fst ckv)"
        by (metis map_of_eq_None_iff option.distinct(1) set_map)
      from r JObj nu sd Some have r': 
        "bind_exn (str_in ''Started by user'' dv) (\<lambda>by_user.
               if by_user then
                 bind_exn (attr_replace dv ''Started by user '' []) (\<lambda>v. Inr (Some v))
               else
                 bind_exn (str_in ''Started by'' dv) (\<lambda>by_any.
                   if by_any then
                     bind_exn (attr_replace dv ''Started by '' []) (\<lambda>v. Inr (Some v))
                   else Inr (Some (JStr ''SCM/Timer'')))) = Inr (Some v)"
        by (simp add: cause_trigger_def bind_exn_def get_default_def)
      show ?thesis
      proof (cases dv)
        case (JStr d)
        have h: "\<forall>n. d \<noteq> concat (replicate (Suc n) ''Started by user '')"
                "\<forall>n. d \<noteq> concat (replicate (Suc n) ''Started by '')"
          using desc [OF JObj Some [unfolded JStr]] by blast+
        show ?thesis
        proof (cases "contains ''Started by user'' d")
          case True
          with r' JStr have "v = JStr (replace ''Started by user '' [] d)"
            by (simp add: bind_exn_def)
          moreover have "replace ''Started by user '' [] d \<noteq> []"
            using True h(1) by (intro removed_prefix_nonempty [of "''Started by user''"]) simp_all
          ultimately show ?thesis by simp
        next
          case False
          show ?thesis
          proof (cases "contains ''Started by'' d")
            case True
            with r' JStr False have "v = JStr (replace ''Started by '' [] d)"
              by (simp add: bind_exn_def)
            moreover have "replace ''Started by '' [] d \<noteq> []"
              using True h(2) by (intro removed_prefix_nonempty [of "''Started by''"]) simp_all
            ultimately show ?thesis by simp
          next
            case no: False
            with r' JStr False have "v = JStr ''SCM/Timer''"
              by (simp add: bind_exn_def)
            then show ?thesis by simp
          qed
        qed
      qed (use r' in \<open>auto simp: bind_exn_def split: if_splits\<close>)
    qed
  qed
qed (use r in \<open>auto simp: cause_trigger_def bind_exn_def split: if_splits\<close>)

lemma trigger_loop_skip_all:
  "(\<And>a rest. a \<in> set as \<Longrightarrow> trigger_loop (a # rest) = trigger_loop rest)
   \<Longrightarrow> trigger_loop as = Inr (JStr ''Unknown'')"
proof (induction as)
  case Nil
  show ?case by simp
next
  case (Cons a as)
  have "trigger_loop (a # as) = trigger_loop as"
    by (rule Cons.prems) simp
  moreover have "trigger_loop as = Inr (JStr ''Unknown'')"
  proof (rule Cons.IH)
    fix b rest
    assume "b \<in> set as"
    then have "b \<in> set (a # as)" by simp
    then show "trigger_loop (b # rest) = trigger_loop rest" by (rule Cons.prems)
  qed
  ultimately show ?case by (rule trans)
qed

lemma trigger_loop_skip_other:
  "get_default kvs ''_class'' JNull \<noteq> JStr ''hudson.model.CauseAction''
   \<Longrightarrow> trigger_loop (JObj kvs # rest) = trigger_loop rest"
  by (simp add: bind_exn_def)

lemma trigger_loop_skip_unmatched:
  assumes "py_iter (get_default kvs ''causes'' (JList [])) = Inr cs"
    and "\<forall>c\<in>set cs. cause_trigger c = Inr None"
  shows "trigger_loop (JObj kvs # rest) = trigger_loop rest"
proof -
  from assms(2) have "causes_loop cs = Inr None"
    using causes_loop_append [of cs "[]"] by simp
  with assms(1) show ?thesis by (simp add: bind_exn_def)
qed

lemma trigger_loop_Unknown:
  assumes "\<forall>a\<in>set as. \<exists>kvs. a = JObj kvs
       \<and> (get_default kvs ''_class'' JNull = JStr ''hudson.model.CauseAction'' \<longrightarrow>
            (\<exists>cs. py_iter (get_default kvs ''causes'' (JList [])) = Inr cs
               \<and> (\<forall>c\<in>set cs. \<exists>ckv. c = JObj ckv \<and> map_of ckv ''userId'' = None
                                  \<and> map_of ckv ''shortDescription'' = None)))"
  shows "trigger_loop as = Inr (JStr ''Unknown'')"
proof (rule trigger_loop_skip_all)
  fix a rest
  assume "a \<in> set as"
  with assms have "\<exists>kvs. a = JObj kvs
       \<and> (get_default kvs ''_class'' JNull = JStr ''hudson.model.CauseAction'' \<longrightarrow>
            (\<exists>cs. py_iter (get_default kvs ''causes'' (JList [])) = Inr cs
               \<and> (\<forall>c\<in>set cs. \<exists>ckv. c = JObj ckv \<and> map_of ckv ''userId'' = None
                                  \<and> map_of ckv ''shortDescription'' = None)))"
    by (rule bspec)
  then obtain kvs where a: "a = JObj kvs"
    and q: "get_default kvs ''_class'' JNull = JStr ''hudson.model.CauseAction'' \<longrightarrow>
            (\<exists>cs. py_iter (get_default kvs ''causes'' (JList [])) = Inr cs
               \<and> (\<forall>c\<in>set cs. \<exists>ckv. c = JObj ckv \<and> map_of ckv ''userId'' = None
                                  \<and> map_of ckv ''shortDescription'' = None))"
    by (elim exE conjE)
  show "trigger_loop (a # rest) = trigger_loop rest"
  proof (cases "get_default kvs ''_class'' JNull = JStr ''hudson.model.CauseAction''")
    case False
    then show ?thesis unfolding a by (rule trigger_loop_skip_other)
  next
    case True
    with q have "\<exists>cs. py_iter (get_default kvs ''causes'' (JList [])) = Inr cs
               \<and> (\<forall>c\<in>set cs. \<exists>ckv. c = JObj ckv \<and> map_of ckv ''userId'' = None
                                  \<and> map_of ckv ''shortDescription'' = None)"
      by (rule mp)
    then obtain cs where cs: "py_iter (get_default kvs ''causes'' (JList [])) = Inr cs"
      and un: "\<forall>c\<in>set cs. \<exists>ckv. c = JObj ckv \<and> map_of ckv ''userId'' = None
                                  \<and> map_of ckv ''shortDescription'' = None"
      by (elim exE conjE)
    have "\<forall>c\<in>set cs. cause_trigger c = Inr None"
    proof
      fix c assume "c \<in> set cs"
      with un have "\<exists>ckv. c = JObj ckv \<and> map_of ckv ''userId'' = None
                                  \<and> map_of ckv ''shortDescription'' = None"
        by (rule bspec)
      then obtain ckv where "c = JObj ckv" "map_of ckv ''userId'' = None"
          "map_of ckv ''shortDescription'' = None"
        by (elim exE conjE)
      then show "cause_trigger c = Inr None"
        by (simp only: cause_trigger_no_keys)
    qed
    with cs show ?thesis unfolding a by (rule trigger_loop_skip_unmatched)
  qed
qed

lemma trigger_loop_origin:
  assumes step: "\<And>a rest. trigger_loop (a # rest) = Inr v \<Longrightarrow> trigger_loop rest = Inr v \<or> P a"
  shows "trigger_loop as = Inr v \<Longrightarrow> v = JStr ''Unknown'' \<or> (\<exists>a\<in>set as. P a)"
proof (induction as)
  case Nil
  then show ?case by simp
next
  case (Cons a as)
  from step [OF Cons.prems] show ?case
  proof
    assume "trigger_loop as = Inr v"
    then have "v = JStr ''Unknown'' \<or> (\<exists>a\<in>set as. P a)" by (rule Cons.IH)
    then show ?thesis by auto
  next
    assume "P a"
    then show ?thesis by simp
  qed
qed

lemma trigger_loop_step:
  assumes "trigger_loop (a # rest) = Inr v"
  shows "trigger_loop rest = Inr v
     \<or> (\<exists>kvs cs c. a = JObj kvs
           \<and> get_default kvs ''_class'' JNull = JStr ''hudson.model.CauseAction''
           \<and> py_iter (get_default kvs ''causes'' (JList [])) = Inr cs
           \<and> c \<in> set cs \<and> cause_trigger c = Inr (Some v))"
proof (cases a)
  case (JObj kvs)
  show ?thesis
  proof (cases "get_default kvs ''_class'' JNull = JStr ''hudson.model.CauseAction''")
    case False
    with assms JObj have "trigger_loop rest = Inr v" by (simp add: bind_exn_def)
    then show ?thesis by (rule disjI1)
  next
    case cls: True
    from assms JObj cls obtain cs where cs: "py_iter (get_default kvs ''causes'' (JList [])) = Inr cs"
      by (cases "py_iter (get_default kvs ''causes'' (JList []))") (simp_all add: bind_exn_def)
    from assms JObj cls cs obtain r where r: "causes_loop cs = Inr r"
      by (cases "causes_loop cs") (simp_all add: bind_exn_def)
    show ?thesis
    proof (cases r)
      case None
      with assms JObj cls cs r have "trigger_loop rest = Inr v"
        by (simp add: bind_exn_def)
      then show ?thesis by (rule disjI1)
    next
      case (Some v')
      with assms JObj cls cs r have "v' = v"
        by (simp add: bind_exn_def)
      with Some r have "causes_loop cs = Inr (Some v)" by simp
      then obtain c where c: "c \<in> set cs" and ct: "cause_trigger c = Inr (Some v)"
        using causes_loop_Some by blast
      show ?thesis
      proof (intro disjI2 exI conjI)
        show "a = JObj kvs" by (rule JObj)
        show "get_default kvs ''_class'' JNull = JStr ''hudson.model.CauseAction''" by (rule cls)
        show "py_iter (get_default kvs ''causes'' (JList [])) = Inr cs" by (rule cs)
        show "c \<in> set cs" by (rule c)
        show "cause_trigger c = Inr (Some v)" by (rule ct)
      qed
    qed
  qed
qed (use assms in \<open>simp_all add: bind_exn_def\<close>)




subsection \<open>Parameter extraction\<close>

lemma py_eq_sym: "py_eq a b = py_eq b a"
  by (cases a; cases b) auto

lemma py_eq_trans: "py_eq a b \<Longrightarrow> py_eq b c \<Longrightarrow> py_eq a c"
  by (cases a; cases b; cases c) (simp_all split: if_splits)

lemma dict_get_Cons:
  "dict_get ((k0, v0) # d) k = (if py_eq k0 k then Some v0 else dict_get d k)"
  by (simp add: dict_get_def)

lemma dict_get_Nil: "dict_get [] k = None"
  by (simp add: dict_get_def)

lemma dict_get_set:
  "dict_get (dict_set d k v) k' = (if py_eq k k' then Some v else dict_get d k')"
proof (induction d)
  case Nil
  show ?case by (simp add: dict_get_Cons dict_get_Nil)
next
  case (Cons kv d)
  obtain k0 v0 where kv: "kv = (k0, v0)" by (cases kv)
  show ?case
  proof (cases "py_eq k0 k")
    case True
    have "py_eq k k' \<longleftrightarrow> py_eq k0 k'"
      using True py_eq_trans py_eq_sym by blast
    with True show ?thesis by (simp add: kv dict_get_Cons)
  next
    case False
    have "py_eq k0 k' \<Longrightarrow> \<not> py_eq k k'"
      using False py_eq_trans py_eq_sym by blast
    with False Cons.IH show ?thesis by (auto simp: kv dict_get_Cons)
  qed
qed

lemma find_append:
  "find P (xs @ ys) = (case find P xs of None \<Rightarrow> find P ys | Some x \<Rightarrow> Some x)"
  by (induction xs) auto

lemma last_param_append:
  "last_param k (xs @ ys) =
     (case last_param k ys of None \<Rightarrow> last_param k xs | Some p \<Rightarrow> Some p)"
  unfolding last_param_def by (simp add: find_append)

lemma last_param_Nil: "last_param k [] = None"
  by (simp add: last_param_def)

lemma last_param_single:
  "last_param k [p] = (if kept p \<and> py_eq (param_name p) k then Some p else None)"
  by (simp add: last_param_def)

lemma param_step_get:
  assumes "param_step rt d p = Inr d'"
  shows "dict_get d' k =
           (case last_param k [p] of None \<Rightarrow> dict_get d k
            | Some q \<Rightarrow> Some (py_str rt (param_value q)))"
proof (cases p)
  case (JObj kvs)
  show ?thesis
  proof (cases "kept p")
    case True
    with assms JObj have "d' = dict_set d (param_name p) (py_str rt (param_value p))"
      by (simp add: param_step_def bind_exn_def kept_def param_name_def param_value_def
          split: if_splits)
    with True show ?thesis by (simp add: last_param_single dict_get_set)
  next
    case False
    with assms JObj have "d' = d"
      by (auto simp: param_step_def bind_exn_def kept_def param_name_def param_value_def
          split: if_splits)
    with False show ?thesis by (simp add: last_param_single)
  qed
qed (use assms in \<open>simp_all add: param_step_def bind_exn_def\<close>)

lemma params_loop_get:
  "params_loop rt d ps = Inr d' \<Longrightarrow>
     dict_get d' k =
       (case last_param k ps of None \<Rightarrow> dict_get d k
        | Some q \<Rightarrow> Some (py_str rt (param_value q)))"
proof (induction ps arbitrary: d)
  case Nil
  then show ?case by (simp add: last_param_Nil)
next
  case (Cons p ps)
  from Cons.prems obtain d1 where s: "param_step rt d p = Inr d1"
    and l: "params_loop rt d1 ps = Inr d'"
    by (cases "param_step rt d p") (simp_all add: bind_exn_def)
  have ap: "last_param k (p # ps) =
      (case last_param k ps of None \<Rightarrow> last_param k [p] | Some q \<Rightarrow> Some q)"
    using last_param_append [of k "[p]" ps] by simp
  show ?case
    unfolding ap Cons.IH [OF l] param_step_get [OF s]
    by (simp split: option.splits)
qed

lemma parameters_loop_get:
  "parameters_loop rt d as = Inr d' \<Longrightarrow>
     dict_get d' k =
       (case last_param k (all_parameters as) of None \<Rightarrow> dict_get d k
        | Some q \<Rightarrow> Some (py_str rt (param_value q)))"
proof (induction as arbitrary: d)
  case Nil
  then show ?case by (simp add: all_parameters_def last_param_Nil)
next
  case (Cons a as)
  have ap: "last_param k (all_parameters (a # as)) =
      (case last_param k (all_parameters as) of None \<Rightarrow> last_param k (action_parameters a)
       | Some q \<Rightarrow> Some q)"
    using last_param_append [of k "action_parameters a" "all_parameters as"]
    by (simp add: all_parameters_def)
  show ?case
  proof (cases a)
    case (JObj kvs)
    show ?thesis
    proof (cases "get_default kvs ''_class'' JNull = JStr ''hudson.model.ParametersAction''")
      case False
      with Cons.prems JObj have l: "parameters_loop rt d as = Inr d'"
        by (simp add: bind_exn_def)
      from False JObj have "action_parameters a = []"
        by (simp add: action_parameters_def)
      then show ?thesis
        unfolding ap Cons.IH [OF l] by (simp add: last_param_Nil split: option.splits)
    next
      case True
      from Cons.prems JObj True obtain ps where
        ps: "py_iter (get_default kvs ''parameters'' (JList [])) = Inr ps"
        by (cases "py_iter (get_default kvs ''parameters'' (JList []))")
           (simp_all add: bind_exn_def)
      from Cons.prems JObj True ps obtain d1 where
        p: "params_loop rt d ps = Inr d1" and l: "parameters_loop rt d1 as = Inr d'"
        by (cases "params_loop rt d ps") (simp_all add: bind_exn_def)
      from True JObj ps have "action_parameters a = ps"
        by (simp add: action_parameters_def)
      then show ?thesis
        unfolding ap Cons.IH [OF l] params_loop_get [OF p] by (simp split: option.splits)
    qed
  qed (use Cons.prems in \<open>simp_all add: bind_exn_def\<close>)
qed

lemma extract_parameters_get:
  assumes "py_iter actions = Inr as" and "extract_parameters rt actions = Inr d"
  shows "dict_get d k = spec_parameters rt as k"
proof -
  from assms have "parameters_loop rt [] as = Inr d"
    by (simp add: extract_parameters_def bind_exn_def)
  from parameters_loop_get [OF this] show ?thesis
    by (simp add: spec_parameters_def dict_get_Nil split: option.splits)
qed

lemma params_loop_append:
  "params_loop rt d (xs @ ys) = bind_exn (params_loop rt d xs) (\<lambda>d'. params_loop rt d' ys)"
proof (induction xs arbitrary: d)
  case Nil
  show ?case by (simp add: bind_exn_def)
next
  case (Cons x xs)
  show ?case
    by (cases "param_step rt d x") (simp_all add: bind_exn_def Cons.IH)
qed

lemma param_step_falsy:
  "\<not> truthy (get_default pkv ''value'' (JStr [])) \<Longrightarrow> param_step rt d (JObj pkv) = Inr d"
  by (simp add: param_step_def bind_exn_def)

lemma params_loop_drop:
  assumes "\<not> truthy (get_default pkv ''value'' (JStr []))"
  shows "params_loop rt d (pre @ JObj pkv # post) = params_loop rt d (pre @ post)"
proof -
  have "params_loop rt d1 (JObj pkv # post) = params_loop rt d1 post" for d1
    using param_step_falsy [OF assms] by (simp add: bind_exn_def)
  then show ?thesis by (simp add: params_loop_append)
qed

lemma last_param_None:
  assumes "\<forall>p\<in>set ps. py_eq (param_name p) k \<longrightarrow> \<not> truthy (param_value p)"
  shows "last_param k ps = None"
proof -
  have "\<not> (\<exists>p. p \<in> set (rev (filter kept ps)) \<and> py_eq (param_name p) k)"
  proof
    assume "\<exists>p. p \<in> set (rev (filter kept ps)) \<and> py_eq (param_name p) k"
    then obtain p where p: "p \<in> set ps" "kept p" "py_eq (param_name p) k" by auto
    from assms p(1,3) have "\<not> truthy (param_value p)" by blast
    with p(2) show False by (simp add: kept_def)
  qed
  then show ?thesis unfolding last_param_def by (simp only: find_None_iff simp_thms)
qed

lemma params_loop_returns:
  "\<forall>p\<in>set ps. \<exists>pkv. p = JObj pkv \<and> hashable (get_default pkv ''name'' (JStr []))
   \<Longrightarrow> \<exists>d'. params_loop rt d ps = Inr d'"
proof (induction ps arbitrary: d)
  case Nil
  show ?case by simp
next
  case (Cons p ps)
  then obtain pkv where p: "p = JObj pkv" and h: "hashable (get_default pkv ''name'' (JStr []))"
    by auto
  from h have "\<exists>d1. param_step rt d p = Inr d1"
    by (simp add: p param_step_def bind_exn_def)
  then obtain d1 where "param_step rt d p = Inr d1" ..
  moreover from Cons obtain d' where "params_loop rt d1 ps = Inr d'" by auto
  ultimately show ?case by (simp add: bind_exn_def)
qed

lemma parameters_loop_returns:
  "\<forall>a\<in>set as. \<exists>kvs ps. a = JObj kvs \<and> get_default kvs ''parameters'' (JList []) = JList ps
       \<and> (\<forall>p\<in>set ps. \<exists>pkv. p = JObj pkv \<and> hashable (get_default pkv ''name'' (JStr [])))
   \<Longrightarrow> \<exists>d'. parameters_loop rt d as = Inr d'"
proof (induction as arbitrary: d)
  case Nil
  show ?case by simp
next
  case (Cons a as)
  from Cons.prems obtain kvs ps where a: "a = JObj kvs"
    and ps: "get_default kvs ''parameters'' (JList []) = JList ps"
    and wf: "\<forall>p\<in>set ps. \<exists>pkv. p = JObj pkv \<and> hashable (get_default pkv ''name'' (JStr []))"
    by auto
  from Cons.prems have tl: "\<forall>a\<in>set as. \<exists>kvs ps. a = JObj kvs
       \<and> get_default kvs ''parameters'' (JList []) = JList ps
       \<and> (\<forall>p\<in>set ps. \<exists>pkv. p = JObj pkv \<and> hashable (get_default pkv ''name'' (JStr [])))"
    by simp
  from params_loop_returns [OF wf] obtain d1 where d1: "params_loop rt d ps = Inr d1"
    by blast
  from Cons.IH [OF tl] obtain d2 where d2: "parameters_loop rt d1 as = Inr d2" by blast
  from Cons.IH [OF tl] obtain d3 where d3: "parameters_loop rt d as = Inr d3" by blast
  show ?case
    by (cases "get_default kvs ''_class'' JNull = JStr ''hudson.model.ParametersAction''")
       (simp_all add: a ps d1 d2 d3 bind_exn_def)
qed

subsection \<open>The build loop\<close>







lemma build_row_null:
  assumes "map_of kvs ''result'' = Some JNull"
  shows "\<exists>e. build_row rt n (JObj kvs) = Inl e"
proof -
  have r: "attr_get (JObj kvs) ''result'' (JStr ''UNKNOWN'') = Inr JNull"
    using assms by (simp add: get_default_def)
  show ?thesis
    unfolding build_row_def r
    by (simp add: bind_exn_def Let_def split: sum.splits)
qed

lemma build_row_absent:
  assumes "map_of kvs ''result'' = None" and "build_row rt n (JObj kvs) = Inr row"
  shows "\<exists>c1 rest. format_left 8 n = Inr c1 \<and> row = c1 @ '' '' @ ljust 12 ''UNKNOWN'' @ '' '' @ rest"
proof -
  have r: "attr_get (JObj kvs) ''result'' (JStr ''UNKNOWN'') = Inr (JStr ''UNKNOWN'')"
    using assms(1) by (simp add: get_default_def)
  from assms(2) show ?thesis
    unfolding build_row_def r
    by (auto simp: bind_exn_def Let_def split: sum.splits)
qed

lemma build_time_Unknown:
  "map_of kvs ''timestamp'' = None \<or> map_of kvs ''timestamp'' = Some JNull
   \<Longrightarrow> build_time rt (get_default kvs ''timestamp'' (JInt 0)) = Inr ''Unknown''"
  by (auto simp: build_time_def get_default_def)


lemma str_int_7: "str_int 7 = ''7''"
  by code_simp

section \<open>The claims\<close>

subsection \<open>C1: a timer build\<close>

text \<open>
  C1, as the code has it. For the build whose only action is a CauseAction with the one
  cause \<^verbatim>\<open>{shortDescription: "Started by timer"}\<close>, trigger extraction returns
  \<^verbatim>\<open>"timer"\<close>: the description contains \<^verbatim>\<open>"Started by"\<close>, so the
  \<^verbatim>\<open>elif\<close> branch removes \<^verbatim>\<open>"Started by "\<close> from it. In general, for a
  single cause without \<^verbatim>\<open>userId\<close> whose description \<open>d\<close> contains
  \<^verbatim>\<open>"Started by"\<close> but not \<^verbatim>\<open>"Started by user"\<close>, the result is \<open>d\<close>
  with every \<^verbatim>\<open>"Started by "\<close> removed, and the literal \<^verbatim>\<open>"SCM/Timer"\<close> is
  the result for every description that does not contain \<^verbatim>\<open>"Started by"\<close>.
\<close>

theorem trigger_short_description:
  "extract_trigger_info
     (JList [JObj [(''_class'', JStr ''hudson.model.CauseAction''),
                   (''causes'', JList [JObj [(''shortDescription'', JStr ''Started by timer'')]])]])
   = Inr (JStr ''timer'')
   \<and> (contains ''Started by'' d \<and> \<not> contains ''Started by user'' d \<longrightarrow>
        extract_trigger_info
          (JList [JObj [(''_class'', JStr ''hudson.model.CauseAction''),
                        (''causes'', JList [JObj [(''shortDescription'', JStr d)]])]])
        = Inr (JStr (replace ''Started by '' [] d)))
   \<and> (\<not> contains ''Started by'' d \<longrightarrow>
        extract_trigger_info
          (JList [JObj [(''_class'', JStr ''hudson.model.CauseAction''),
                        (''causes'', JList [JObj [(''shortDescription'', JStr d)]])]])
        = Inr (JStr ''SCM/Timer''))"
proof (intro conjI impI)
  show "extract_trigger_info
     (JList [JObj [(''_class'', JStr ''hudson.model.CauseAction''),
                   (''causes'', JList [JObj [(''shortDescription'', JStr ''Started by timer'')]])]])
   = Inr (JStr ''timer'')"
    by (simp add: extract_trigger_info_def bind_exn_def cause_trigger_def get_default_def)
next
  assume "contains ''Started by'' d \<and> \<not> contains ''Started by user'' d"
  then show "extract_trigger_info
          (JList [JObj [(''_class'', JStr ''hudson.model.CauseAction''),
                        (''causes'', JList [JObj [(''shortDescription'', JStr d)]])]])
        = Inr (JStr (replace ''Started by '' [] d))"
    by (simp add: extract_trigger_info_def bind_exn_def cause_trigger_def get_default_def)
next
  assume no: "\<not> contains ''Started by'' d"
  then have "\<not> contains ''Started by user'' d"
    using contains_Started_by by blast
  with no show "extract_trigger_info
          (JList [JObj [(''_class'', JStr ''hudson.model.CauseAction''),
                        (''causes'', JList [JObj [(''shortDescription'', JStr d)]])]])
        = Inr (JStr ''SCM/Timer'')"
    by (simp add: extract_trigger_info_def bind_exn_def cause_trigger_def get_default_def)
qed

theorem trigger_short_description_witness:
  "contains ''Started by'' ''Started by an SCM change''
   \<and> \<not> contains ''Started by user'' ''Started by an SCM change''
   \<and> extract_trigger_info
          (JList [JObj [(''_class'', JStr ''hudson.model.CauseAction''),
                        (''causes'', JList [JObj [(''shortDescription'', JStr ''Started by an SCM change'')]])]])
        = Inr (JStr ''an SCM change'')
   \<and> \<not> contains ''Started by'' ''Triggered by push''
   \<and> extract_trigger_info
          (JList [JObj [(''_class'', JStr ''hudson.model.CauseAction''),
                        (''causes'', JList [JObj [(''shortDescription'', JStr ''Triggered by push'')]])]])
        = Inr (JStr ''SCM/Timer'')"
  using trigger_short_description [of "''Started by an SCM change''"]
        trigger_short_description [of "''Triggered by push''"]
  by simp

text \<open>
  C1 as first stated, with the result \<^verbatim>\<open>"SCM/Timer"\<close> for that build, does not hold.
\<close>

theorem trigger_timer_counterexample:
  "extract_trigger_info
     (JList [JObj [(''_class'', JStr ''hudson.model.CauseAction''),
                   (''causes'', JList [JObj [(''shortDescription'', JStr ''Started by timer'')]])]])
   \<noteq> Inr (JStr ''SCM/Timer'')"
  by (simp add: extract_trigger_info_def bind_exn_def cause_trigger_def get_default_def)

subsection \<open>C2: a failure while a build is displayed\<close>




subsection \<open>C3: a build without result or timestamp\<close>

text \<open>
  C3, evaluated on the code. A payload whose \<^verbatim>\<open>result\<close> is \<^verbatim>\<open>null\<close> never gives
  a row: the \<^verbatim>\<open>None\<close> that \<^verbatim>\<open>get\<close> returns cannot be formatted with
  \<^verbatim>\<open><12\<close>, and the line printed is the error line. A payload without
  \<^verbatim>\<open>result\<close> has \<^verbatim>\<open>UNKNOWN\<close> in the second column of its row, and a
  \<^verbatim>\<open>timestamp\<close> that is absent or \<^verbatim>\<open>null\<close> is rendered as
  \<^verbatim>\<open>Unknown\<close>.
\<close>

theorem build_row_defaults:
  "(map_of kvs ''result'' = Some JNull \<longrightarrow>
      (\<exists>e. build_row rt n (JObj kvs) = Inl e
           \<and> build_line rt n (JObj kvs) = build_error_line rt n e))
   \<and> (map_of kvs ''result'' = None \<and> build_row rt n (JObj kvs) = Inr row \<longrightarrow>
      (\<exists>c1 rest. format_left 8 n = Inr c1
                \<and> row = c1 @ '' '' @ ljust 12 ''UNKNOWN'' @ '' '' @ rest))
   \<and> (map_of kvs ''timestamp'' = None \<or> map_of kvs ''timestamp'' = Some JNull \<longrightarrow>
      build_time rt (get_default kvs ''timestamp'' (JInt 0)) = Inr ''Unknown'')"
proof (intro conjI impI)
  assume "map_of kvs ''result'' = Some JNull"
  then obtain e where e: "build_row rt n (JObj kvs) = Inl e"
    using build_row_null by blast
  then have "build_line rt n (JObj kvs) = build_error_line rt n e"
    by (simp add: build_line_def)
  with e show "\<exists>e. build_row rt n (JObj kvs) = Inl e
           \<and> build_line rt n (JObj kvs) = build_error_line rt n e"
    by blast
next
  assume "map_of kvs ''result'' = None \<and> build_row rt n (JObj kvs) = Inr row"
  then show "\<exists>c1 rest. format_left 8 n = Inr c1
                \<and> row = c1 @ '' '' @ ljust 12 ''UNKNOWN'' @ '' '' @ rest"
    using build_row_absent by blast
next
  assume "map_of kvs ''timestamp'' = None \<or> map_of kvs ''timestamp'' = Some JNull"
  then show "build_time rt (get_default kvs ''timestamp'' (JInt 0)) = Inr ''Unknown''"
    by (rule build_time_Unknown)
qed

theorem build_row_defaults_witness:
  "build_row
     \<lparr>container_str = (\<lambda>j. []), strftime_local = (\<lambda>i. Some ''2023-11-14 22:13:20''),
        exc_text = (\<lambda>e. ''unsupported format string passed to NoneType.__format__''),
        server = (\<lambda>n u. RequestFailed [])\<rparr>
     (JInt 7) (JObj [(''result'', JNull), (''timestamp'', JInt 1700000000000)])
     = Inl TypeError
   \<and> build_line
     \<lparr>container_str = (\<lambda>j. []), strftime_local = (\<lambda>i. Some ''2023-11-14 22:13:20''),
        exc_text = (\<lambda>e. ''unsupported format string passed to NoneType.__format__''),
        server = (\<lambda>n u. RequestFailed [])\<rparr>
     (JInt 7) (JObj [(''result'', JNull), (''timestamp'', JInt 1700000000000)])
     = ''Error getting details for build #7: unsupported format string passed to NoneType.__format__''
   \<and> build_row
     \<lparr>container_str = (\<lambda>j. []), strftime_local = (\<lambda>i. Some ''2023-11-14 22:13:20''),
        exc_text = (\<lambda>e. ''unsupported format string passed to NoneType.__format__''),
        server = (\<lambda>n u. RequestFailed [])\<rparr>
     (JInt 7) (JObj [(''timestamp'', JNull)])
     = Inr (ljust 8 ''7'' @ '' '' @ ljust 12 ''UNKNOWN'' @ '' '' @ ljust 20 ''Unknown''
            @ '' '' @ ljust 20 ''Unknown'' @ '' '' @ ljust 30 ''None'')"
proof -
  let ?rt = "\<lparr>container_str = (\<lambda>j. []), strftime_local = (\<lambda>i. Some ''2023-11-14 22:13:20''),
        exc_text = (\<lambda>e. ''unsupported format string passed to NoneType.__format__''),
        server = (\<lambda>n u. RequestFailed [])\<rparr>"
  let ?kvs = "[(''result'', JNull), (''timestamp'', JInt 1700000000000)]"
  have "map_of ?kvs ''result'' = Some JNull" by simp
  with build_row_defaults [of ?kvs ?rt "JInt 7" "[]", THEN conjunct1]
  have "\<exists>e. build_row ?rt (JInt 7) (JObj ?kvs) = Inl e
           \<and> build_line ?rt (JInt 7) (JObj ?kvs) = build_error_line ?rt (JInt 7) e"
    by (rule mp)
  then obtain e where e: "build_row ?rt (JInt 7) (JObj ?kvs) = Inl e"
    and l: "build_line ?rt (JInt 7) (JObj ?kvs) = build_error_line ?rt (JInt 7) e"
    by blast
  have t: "build_row ?rt (JInt 7) (JObj ?kvs) = Inl TypeError"
    by (simp add: build_row_def bind_exn_def get_default_def extract_trigger_info_def
        extract_parameters_def build_time_def format_parameters_def)
  from l have l': "build_line ?rt (JInt 7) (JObj ?kvs)
     = ''Error getting details for build #7: unsupported format string passed to NoneType.__format__''"
    by (simp add: build_error_line_def str_int_7)
  have a: "build_row ?rt (JInt 7) (JObj [(''timestamp'', JNull)])
     = Inr (ljust 8 ''7'' @ '' '' @ ljust 12 ''UNKNOWN'' @ '' '' @ ljust 20 ''Unknown''
            @ '' '' @ ljust 20 ''Unknown'' @ '' '' @ ljust 30 ''None'')"
    by (simp add: build_row_def bind_exn_def get_default_def extract_trigger_info_def
        extract_parameters_def build_time_def format_parameters_def str_int_7)
  from t l' a show ?thesis by (intro conjI)
qed

subsection \<open>C4: is the trigger ever empty?\<close>

text \<open>
  C4, as the code has it. When trigger extraction returns, the result is a non-empty string
  provided that, in every cause of every CauseAction, a \<^verbatim>\<open>userId\<close> is a non-empty
  string and a \<^verbatim>\<open>shortDescription\<close> is not one or more copies of the prefix that is
  removed from it (\<^verbatim>\<open>"Started by user "\<close> or \<^verbatim>\<open>"Started by "\<close>). The
  result is \<^verbatim>\<open>"Unknown"\<close> when every action is a dict that is no CauseAction or a
  CauseAction whose causes are dicts with neither key.
\<close>

theorem trigger_nonempty:
  "(py_iter actions = Inr as
     \<and> (\<forall>kvs cs ckv. JObj kvs \<in> set as
           \<and> get_default kvs ''_class'' JNull = JStr ''hudson.model.CauseAction''
           \<and> py_iter (get_default kvs ''causes'' (JList [])) = Inr cs \<and> JObj ckv \<in> set cs \<longrightarrow>
           (\<forall>u. map_of ckv ''userId'' = Some u \<longrightarrow> (\<exists>s. u = JStr s \<and> s \<noteq> []))
           \<and> (\<forall>d n. map_of ckv ''shortDescription'' = Some (JStr d) \<longrightarrow>
                 d \<noteq> concat (replicate (Suc n) ''Started by user '')
                 \<and> d \<noteq> concat (replicate (Suc n) ''Started by '')))
     \<and> extract_trigger_info actions = Inr v
    \<longrightarrow> (\<exists>s. v = JStr s \<and> s \<noteq> []))
   \<and> ((\<forall>a\<in>set as. \<exists>kvs. a = JObj kvs
         \<and> (get_default kvs ''_class'' JNull = JStr ''hudson.model.CauseAction'' \<longrightarrow>
              (\<exists>cs. py_iter (get_default kvs ''causes'' (JList [])) = Inr cs
                 \<and> (\<forall>c\<in>set cs. \<exists>ckv. c = JObj ckv \<and> map_of ckv ''userId'' = None
                                    \<and> map_of ckv ''shortDescription'' = None))))
    \<longrightarrow> extract_trigger_info (JList as) = Inr (JStr ''Unknown''))"
proof (intro conjI impI)
  assume a: "py_iter actions = Inr as
     \<and> (\<forall>kvs cs ckv. JObj kvs \<in> set as
           \<and> get_default kvs ''_class'' JNull = JStr ''hudson.model.CauseAction''
           \<and> py_iter (get_default kvs ''causes'' (JList [])) = Inr cs \<and> JObj ckv \<in> set cs \<longrightarrow>
           (\<forall>u. map_of ckv ''userId'' = Some u \<longrightarrow> (\<exists>s. u = JStr s \<and> s \<noteq> []))
           \<and> (\<forall>d n. map_of ckv ''shortDescription'' = Some (JStr d) \<longrightarrow>
                 d \<noteq> concat (replicate (Suc n) ''Started by user '')
                 \<and> d \<noteq> concat (replicate (Suc n) ''Started by '')))
     \<and> extract_trigger_info actions = Inr v"
  note it = a [THEN conjunct1]
  note good = a [THEN conjunct2, THEN conjunct1, rule_format]
  note ex = a [THEN conjunct2, THEN conjunct2]
  from it ex have tl: "trigger_loop as = Inr v"
    by (simp add: extract_trigger_info_def bind_exn_def)
  from trigger_loop_origin [where P = "\<lambda>a. \<exists>kvs cs c. a = JObj kvs
           \<and> get_default kvs ''_class'' JNull = JStr ''hudson.model.CauseAction''
           \<and> py_iter (get_default kvs ''causes'' (JList [])) = Inr cs
           \<and> c \<in> set cs \<and> cause_trigger c = Inr (Some v)", OF trigger_loop_step tl]
  show "\<exists>s. v = JStr s \<and> s \<noteq> []"
  proof
    assume "v = JStr ''Unknown''"
    then show ?thesis by simp
  next
    assume "\<exists>a\<in>set as. \<exists>kvs cs c. a = JObj kvs
           \<and> get_default kvs ''_class'' JNull = JStr ''hudson.model.CauseAction''
           \<and> py_iter (get_default kvs ''causes'' (JList [])) = Inr cs
           \<and> c \<in> set cs \<and> cause_trigger c = Inr (Some v)"
    then obtain a kvs cs c where m0: "a \<in> set as" "a = JObj kvs"
      and m: "get_default kvs ''_class'' JNull = JStr ''hudson.model.CauseAction''"
        "py_iter (get_default kvs ''causes'' (JList [])) = Inr cs"
        "c \<in> set cs" and ct: "cause_trigger c = Inr (Some v)"
      by (elim bexE exE conjE)
    from m0 have mem: "JObj kvs \<in> set as" by simp
    show ?thesis
    proof (rule cause_trigger_nonempty [OF ct])
      fix ckv u
      assume c: "c = JObj ckv" and u: "map_of ckv ''userId'' = Some u"
      from m(3) c have "JObj ckv \<in> set cs" by simp
      with mem m(1,2) have "JObj kvs \<in> set as
           \<and> get_default kvs ''_class'' JNull = JStr ''hudson.model.CauseAction''
           \<and> py_iter (get_default kvs ''causes'' (JList [])) = Inr cs \<and> JObj ckv \<in> set cs"
        by (intro conjI)
      from good [OF this, THEN conjunct1, rule_format, OF u]
      show "\<exists>s. u = JStr s \<and> s \<noteq> []" .
    next
      fix ckv d n
      assume c: "c = JObj ckv" and d: "map_of ckv ''shortDescription'' = Some (JStr d)"
      from m(3) c have "JObj ckv \<in> set cs" by simp
      with mem m(1,2) have "JObj kvs \<in> set as
           \<and> get_default kvs ''_class'' JNull = JStr ''hudson.model.CauseAction''
           \<and> py_iter (get_default kvs ''causes'' (JList [])) = Inr cs \<and> JObj ckv \<in> set cs"
        by (intro conjI)
      from good [OF this, THEN conjunct2, rule_format, OF d]
      show "d \<noteq> concat (replicate (Suc n) ''Started by user '')
                \<and> d \<noteq> concat (replicate (Suc n) ''Started by '')" .
    qed
  qed
next
  assume "\<forall>a\<in>set as. \<exists>kvs. a = JObj kvs
         \<and> (get_default kvs ''_class'' JNull = JStr ''hudson.model.CauseAction'' \<longrightarrow>
              (\<exists>cs. py_iter (get_default kvs ''causes'' (JList [])) = Inr cs
                 \<and> (\<forall>c\<in>set cs. \<exists>ckv. c = JObj ckv \<and> map_of ckv ''userId'' = None
                                    \<and> map_of ckv ''shortDescription'' = None)))"
  then have "trigger_loop as = Inr (JStr ''Unknown'')" by (rule trigger_loop_Unknown)
  then show "extract_trigger_info (JList as) = Inr (JStr ''Unknown'')"
    by (simp add: extract_trigger_info_def bind_exn_def)
qed

theorem trigger_nonempty_witness:
  "extract_trigger_info
     (JList [JObj [(''_class'', JStr ''hudson.model.CauseAction''),
                   (''causes'', JList [JObj [(''shortDescription'', JStr ''Started by user Alice'')]])]])
     = Inr (JStr ''Alice'')
   \<and> (\<exists>s. JStr ''Alice'' = JStr s \<and> s \<noteq> [])
   \<and> extract_trigger_info (JList [JObj [(''_class'', JStr ''hudson.model.ParametersAction'')]])
     = Inr (JStr ''Unknown'')"
proof (intro conjI)
  let ?A = "JObj [(''_class'', JStr ''hudson.model.CauseAction''),
                   (''causes'', JList [JObj [(''shortDescription'', JStr ''Started by user Alice'')]])]"
  show ex: "extract_trigger_info (JList [?A]) = Inr (JStr ''Alice'')"
    by (simp add: extract_trigger_info_def bind_exn_def cause_trigger_def get_default_def)
  have hyp: "\<forall>kvs cs ckv. JObj kvs \<in> set [?A]
           \<and> get_default kvs ''_class'' JNull = JStr ''hudson.model.CauseAction''
           \<and> py_iter (get_default kvs ''causes'' (JList [])) = Inr cs \<and> JObj ckv \<in> set cs \<longrightarrow>
           (\<forall>u. map_of ckv ''userId'' = Some u \<longrightarrow> (\<exists>s. u = JStr s \<and> s \<noteq> []))
           \<and> (\<forall>d n. map_of ckv ''shortDescription'' = Some (JStr d) \<longrightarrow>
                 d \<noteq> concat (replicate (Suc n) ''Started by user '')
                 \<and> d \<noteq> concat (replicate (Suc n) ''Started by ''))"
  proof (intro allI impI)
    fix kvs cs ckv
    assume h: "JObj kvs \<in> set [?A]
           \<and> get_default kvs ''_class'' JNull = JStr ''hudson.model.CauseAction''
           \<and> py_iter (get_default kvs ''causes'' (JList [])) = Inr cs \<and> JObj ckv \<in> set cs"
    from h have kvs: "kvs = [(''_class'', JStr ''hudson.model.CauseAction''),
                   (''causes'', JList [JObj [(''shortDescription'', JStr ''Started by user Alice'')]])]"
      by simp
    from h have "py_iter (get_default kvs ''causes'' (JList [])) = Inr cs" by (elim conjE)
    then have cs: "cs = [JObj [(''shortDescription'', JStr ''Started by user Alice'')]]"
      unfolding kvs by (simp add: get_default_def)
    from h have "JObj ckv \<in> set cs" by (elim conjE)
    then have ckv: "ckv = [(''shortDescription'', JStr ''Started by user Alice'')]"
      unfolding cs by simp
    show "(\<forall>u. map_of ckv ''userId'' = Some u \<longrightarrow> (\<exists>s. u = JStr s \<and> s \<noteq> []))
           \<and> (\<forall>d n. map_of ckv ''shortDescription'' = Some (JStr d) \<longrightarrow>
                 d \<noteq> concat (replicate (Suc n) ''Started by user '')
                 \<and> d \<noteq> concat (replicate (Suc n) ''Started by ''))"
    proof (intro conjI allI impI)
      fix u assume "map_of ckv ''userId'' = Some u"
      then show "\<exists>s. u = JStr s \<and> s \<noteq> []" unfolding ckv by simp
    next
      fix d n assume "map_of ckv ''shortDescription'' = Some (JStr d)"
      then have d: "d = ''Started by user Alice''" unfolding ckv by simp
      show "d \<noteq> concat (replicate (Suc n) ''Started by user '')"
      proof
        assume "d = concat (replicate (Suc n) ''Started by user '')"
        then have "''Alice'' = concat (replicate n ''Started by user '')" unfolding d by simp
        then have "CHR ''A'' = CHR ''S''" by (rule repetition_first)
        then show False by simp
      qed
      show "d \<noteq> concat (replicate (Suc n) ''Started by '')"
      proof
        assume "d = concat (replicate (Suc n) ''Started by '')"
        then have "''user Alice'' = concat (replicate n ''Started by '')" unfolding d by simp
        then have "CHR ''u'' = CHR ''S''" by (rule repetition_first)
        then show False by simp
      qed
    qed
  qed
  have it: "py_iter (JList [?A]) = Inr [?A]" by simp
  from it hyp ex have "py_iter (JList [?A]) = Inr [?A]
     \<and> (\<forall>kvs cs ckv. JObj kvs \<in> set [?A]
           \<and> get_default kvs ''_class'' JNull = JStr ''hudson.model.CauseAction''
           \<and> py_iter (get_default kvs ''causes'' (JList [])) = Inr cs \<and> JObj ckv \<in> set cs \<longrightarrow>
           (\<forall>u. map_of ckv ''userId'' = Some u \<longrightarrow> (\<exists>s. u = JStr s \<and> s \<noteq> []))
           \<and> (\<forall>d n. map_of ckv ''shortDescription'' = Some (JStr d) \<longrightarrow>
                 d \<noteq> concat (replicate (Suc n) ''Started by user '')
                 \<and> d \<noteq> concat (replicate (Suc n) ''Started by '')))
     \<and> extract_trigger_info (JList [?A]) = Inr (JStr ''Alice'')"
    by (intro conjI)
  with trigger_nonempty [of "JList [?A]" "[?A]" "JStr ''Alice''", THEN conjunct1]
  show "\<exists>s. JStr ''Alice'' = JStr s \<and> s \<noteq> []" by (rule mp)
  have "\<forall>a\<in>set [JObj [(''_class'', JStr ''hudson.model.ParametersAction'')]]. \<exists>kvs. a = JObj kvs
         \<and> (get_default kvs ''_class'' JNull = JStr ''hudson.model.CauseAction'' \<longrightarrow>
              (\<exists>cs. py_iter (get_default kvs ''causes'' (JList [])) = Inr cs
                 \<and> (\<forall>c\<in>set cs. \<exists>ckv. c = JObj ckv \<and> map_of ckv ''userId'' = None
                                    \<and> map_of ckv ''shortDescription'' = None)))"
    by (simp add: get_default_def)
  with trigger_nonempty [of JNull "[JObj [(''_class'', JStr ''hudson.model.ParametersAction'')]]" JNull,
         THEN conjunct2]
  show "extract_trigger_info (JList [JObj [(''_class'', JStr ''hudson.model.ParametersAction'')]])
     = Inr (JStr ''Unknown'')" by (rule mp)
qed

text \<open>
  C4 as first stated, for every actions list, does not hold: an empty \<^verbatim>\<open>userId\<close>
  is returned as it is, and the description \<^verbatim>\<open>"Started by user "\<close> is emptied by
  the removal of its prefix.
\<close>

theorem trigger_empty_counterexample:
  "extract_trigger_info
     (JList [JObj [(''_class'', JStr ''hudson.model.CauseAction''),
                   (''causes'', JList [JObj [(''userId'', JStr [])]])]])
   = Inr (JStr [])
   \<and> extract_trigger_info
     (JList [JObj [(''_class'', JStr ''hudson.model.CauseAction''),
                   (''causes'', JList [JObj [(''shortDescription'', JStr ''Started by user '')]])]])
   = Inr (JStr [])"
  by (simp add: extract_trigger_info_def bind_exn_def cause_trigger_def get_default_def)

subsection \<open>C5: which cause decides\<close>




subsection \<open>C6: paths and endpoints\<close>

text \<open>
  C6. \<^verbatim>\<open>strip('/')\<close> removes exactly the leading and the trailing slashes of the
  path: the path is the stripped path between two runs of slashes, and the stripped path,
  when not empty, neither starts nor ends with a slash. \<^verbatim>\<open>job_history\<close> requests
  the stripped path with every \<^verbatim>\<open>/\<close> replaced by \<^verbatim>\<open>/job/\<close>, and
  \<^verbatim>\<open>list_jobs\<close> requests the stripped path as it is; the requested URL is read off
  the message that a failing request prints.
\<close>

theorem path_resolution:
  "(\<exists>a b. p = a @ strip CHR ''/'' p @ b \<and> set a \<subseteq> {CHR ''/''} \<and> set b \<subseteq> {CHR ''/''})
   \<and> (strip CHR ''/'' p \<noteq> [] \<longrightarrow>
         hd (strip CHR ''/'' p) \<noteq> CHR ''/'' \<and> last (strip CHR ''/'' p) \<noteq> CHR ''/'')
   \<and> (server rt (requests w) (''http://localhost:8080/job/''
           @ concat (map (\<lambda>c. if c = CHR ''/'' then ''/job/'' else [c]) (strip CHR ''/'' p))
           @ ''/api/json?tree=builds[number,url]'') = RequestFailed msg \<longrightarrow>
        job_history rt p w =
          (Exit 1,
           print (''Error making request to http://localhost:8080/job/''
                    @ concat (map (\<lambda>c. if c = CHR ''/'' then ''/job/'' else [c]) (strip CHR ''/'' p))
                    @ ''/api/json?tree=builds[number,url]: '' @ msg)
             (w\<lparr>requests := requests w + 1\<rparr>)))
   \<and> (server rt (requests w) (''http://localhost:8080/job/'' @ strip CHR ''/'' p
           @ ''/api/json?tree=jobs[name,url,color]'') = RequestFailed msg \<longrightarrow>
        list_jobs rt p w =
          (Exit 1,
           print (''Error making request to http://localhost:8080/job/'' @ strip CHR ''/'' p
                    @ ''/api/json?tree=jobs[name,url,color]: '' @ msg)
             (w\<lparr>requests := requests w + 1\<rparr>)))"
proof (intro conjI impI)
  show "\<exists>a b. p = a @ strip CHR ''/'' p @ b \<and> set a \<subseteq> {CHR ''/''} \<and> set b \<subseteq> {CHR ''/''}"
    by (rule strip_decomp)
next
  assume "strip CHR ''/'' p \<noteq> []"
  then show "hd (strip CHR ''/'' p) \<noteq> CHR ''/''" by (simp add: strip_ends)
next
  assume "strip CHR ''/'' p \<noteq> []"
  then show "last (strip CHR ''/'' p) \<noteq> CHR ''/''" by (simp add: strip_ends)
next
  assume "server rt (requests w) (''http://localhost:8080/job/''
           @ concat (map (\<lambda>c. if c = CHR ''/'' then ''/job/'' else [c]) (strip CHR ''/'' p))
           @ ''/api/json?tree=builds[number,url]'') = RequestFailed msg"
  then show "job_history rt p w =
          (Exit 1,
           print (''Error making request to http://localhost:8080/job/''
                    @ concat (map (\<lambda>c. if c = CHR ''/'' then ''/job/'' else [c]) (strip CHR ''/'' p))
                    @ ''/api/json?tree=builds[number,url]: '' @ msg)
             (w\<lparr>requests := requests w + 1\<rparr>))"
    by (simp add: job_history_def job_history_body_def client_get_def base_url_eq
        job_endpoint_def replace_char)
next
  assume "server rt (requests w) (''http://localhost:8080/job/'' @ strip CHR ''/'' p
           @ ''/api/json?tree=jobs[name,url,color]'') = RequestFailed msg"
  then show "list_jobs rt p w =
          (Exit 1,
           print (''Error making request to http://localhost:8080/job/'' @ strip CHR ''/'' p
                    @ ''/api/json?tree=jobs[name,url,color]: '' @ msg)
             (w\<lparr>requests := requests w + 1\<rparr>))"
    by (simp add: list_jobs_def list_jobs_body_def client_get_def base_url_eq
        list_jobs_endpoint_def)
qed

theorem path_resolution_witness:
  "strip CHR ''/'' ''//a/b/c/'' = ''a/b/c''
   \<and> job_history \<lparr>container_str = (\<lambda>j. []), strftime_local = (\<lambda>i. None), exc_text = (\<lambda>e. []),
                   server = (\<lambda>n u. RequestFailed ''down'')\<rparr>
        ''//a/b/c/'' \<lparr>requests = 0, printed = []\<rparr>
      = (Exit 1, \<lparr>requests = 1, printed =
           [''Error making request to http://localhost:8080/job/a/job/b/job/c/api/json?tree=builds[number,url]: down'']\<rparr>)
   \<and> list_jobs \<lparr>container_str = (\<lambda>j. []), strftime_local = (\<lambda>i. None), exc_text = (\<lambda>e. []),
                   server = (\<lambda>n u. RequestFailed ''down'')\<rparr>
        ''//a/b/c/'' \<lparr>requests = 0, printed = []\<rparr>
      = (Exit 1, \<lparr>requests = 1, printed =
           [''Error making request to http://localhost:8080/job/a/b/c/api/json?tree=jobs[name,url,color]: down'']\<rparr>)"
  using path_resolution [of "''//a/b/c/''"
          "\<lparr>container_str = (\<lambda>j. []), strftime_local = (\<lambda>i. None), exc_text = (\<lambda>e. []),
            server = (\<lambda>n u. RequestFailed ''down'')\<rparr>"
          "\<lparr>requests = 0, printed = []\<rparr>" "''down''"]
  by (simp add: strip_def rstrip_def print_def)

subsection \<open>C7: the parameter map\<close>

text \<open>
  C7. Whenever \<^verbatim>\<open>_extract_parameters\<close> returns a dict, looking a name up in it gives
  what the specification describes: the \<^verbatim>\<open>str\<close> of the value of the last parameter
  of that name, over the parameters of all ParametersActions in order, among those with
  non-empty name and value. It does return a dict when every action is a dict whose
  \<^verbatim>\<open>parameters\<close> is a list of dicts with hashable names.
\<close>

theorem extract_parameters_map:
  "(py_iter actions = Inr as \<and> extract_parameters rt actions = Inr d
      \<longrightarrow> dict_get d k = spec_parameters rt as k)
   \<and> ((\<forall>a\<in>set as. \<exists>kvs ps. a = JObj kvs \<and> get_default kvs ''parameters'' (JList []) = JList ps
          \<and> (\<forall>p\<in>set ps. \<exists>pkv. p = JObj pkv \<and> hashable (get_default pkv ''name'' (JStr []))))
      \<longrightarrow> (\<exists>d'. extract_parameters rt (JList as) = Inr d'))"
proof (intro conjI impI)
  assume "py_iter actions = Inr as \<and> extract_parameters rt actions = Inr d"
  then show "dict_get d k = spec_parameters rt as k"
    using extract_parameters_get by blast
next
  assume "\<forall>a\<in>set as. \<exists>kvs ps. a = JObj kvs \<and> get_default kvs ''parameters'' (JList []) = JList ps
          \<and> (\<forall>p\<in>set ps. \<exists>pkv. p = JObj pkv \<and> hashable (get_default pkv ''name'' (JStr [])))"
  then have "\<exists>d'. parameters_loop rt [] as = Inr d'" by (rule parameters_loop_returns)
  then show "\<exists>d'. extract_parameters rt (JList as) = Inr d'"
    by (simp add: extract_parameters_def bind_exn_def)
qed

theorem extract_parameters_map_witness:
  "extract_parameters
     \<lparr>container_str = (\<lambda>j. []), strftime_local = (\<lambda>i. None), exc_text = (\<lambda>e. []),
        server = (\<lambda>n u. RequestFailed [])\<rparr>
     (JList [JObj [(''_class'', JStr ''hudson.model.ParametersAction''),
                   (''parameters'', JList [JObj [(''name'', JStr ''ENV''), (''value'', JStr ''a'')]])],
             JObj [(''_class'', JStr ''hudson.model.ParametersAction''),
                   (''parameters'', JList [JObj [(''name'', JStr ''ENV''), (''value'', JStr ''b'')]])]])
     = Inr [(JStr ''ENV'', ''b'')]
   \<and> dict_get [(JStr ''ENV'', ''b'')] (JStr ''ENV'') = Some ''b''
   \<and> spec_parameters
     \<lparr>container_str = (\<lambda>j. []), strftime_local = (\<lambda>i. None), exc_text = (\<lambda>e. []),
        server = (\<lambda>n u. RequestFailed [])\<rparr>
     [JObj [(''_class'', JStr ''hudson.model.ParametersAction''),
                   (''parameters'', JList [JObj [(''name'', JStr ''ENV''), (''value'', JStr ''a'')]])],
             JObj [(''_class'', JStr ''hudson.model.ParametersAction''),
                   (''parameters'', JList [JObj [(''name'', JStr ''ENV''), (''value'', JStr ''b'')]])]]
     (JStr ''ENV'') = Some ''b''"
proof -
  let ?rt = "\<lparr>container_str = (\<lambda>j. []), strftime_local = (\<lambda>i. None), exc_text = (\<lambda>e. []),
        server = (\<lambda>n u. RequestFailed [])\<rparr>"
  let ?as = "[JObj [(''_class'', JStr ''hudson.model.ParametersAction''),
                   (''parameters'', JList [JObj [(''name'', JStr ''ENV''), (''value'', JStr ''a'')]])],
             JObj [(''_class'', JStr ''hudson.model.ParametersAction''),
                   (''parameters'', JList [JObj [(''name'', JStr ''ENV''), (''value'', JStr ''b'')]])]]"
  have ex: "extract_parameters ?rt (JList ?as) = Inr [(JStr ''ENV'', ''b'')]"
    by (simp add: extract_parameters_def bind_exn_def param_step_def get_default_def)
  have g: "dict_get [(JStr ''ENV'', ''b'')] (JStr ''ENV'') = Some ''b''"
    by (simp add: dict_get_def)
  have "py_iter (JList ?as) = Inr ?as \<and> extract_parameters ?rt (JList ?as) = Inr [(JStr ''ENV'', ''b'')]"
    using ex by simp
  with extract_parameters_map [of "JList ?as" ?as ?rt "[(JStr ''ENV'', ''b'')]" "JStr ''ENV''",
         THEN conjunct1]
  have "dict_get [(JStr ''ENV'', ''b'')] (JStr ''ENV'') = spec_parameters ?rt ?as (JStr ''ENV'')"
    by (rule mp)
  with g have "spec_parameters ?rt ?as (JStr ''ENV'') = Some ''b''" by simp
  with ex g show ?thesis by (intro conjI)
qed

subsection \<open>C8: rendering of the parameters\<close>

text \<open>
  C8. An empty dict renders as \<^verbatim>\<open>"None"\<close>. Otherwise the items are written
  \<^verbatim>\<open>key=value\<close> in the order of the dict and joined with \<^verbatim>\<open>", "\<close>; a joined
  string of at most 25 characters is the result as it is, and a longer one is cut to its
  first 22 characters followed by \<^verbatim>\<open>"..."\<close>, 25 characters in all.
\<close>

theorem format_parameters_rule:
  "format_parameters rt [] = ''None''
   \<and> join '', '' (param_strs rt ((k, v) # ps)) =
        (py_str rt k @ ''='' @ v) @ concat (map (\<lambda>kv. '', '' @ py_str rt (fst kv) @ ''='' @ snd kv) ps)
   \<and> (length (join '', '' (param_strs rt ((k, v) # ps))) \<le> 25 \<longrightarrow>
        format_parameters rt ((k, v) # ps) = join '', '' (param_strs rt ((k, v) # ps)))
   \<and> (25 < length (join '', '' (param_strs rt ((k, v) # ps))) \<longrightarrow>
        format_parameters rt ((k, v) # ps) = take 22 (join '', '' (param_strs rt ((k, v) # ps))) @ ''...''
        \<and> length (format_parameters rt ((k, v) # ps)) = 25
        \<and> format_parameters rt ((k, v) # ps) \<noteq> join '', '' (param_strs rt ((k, v) # ps)))"
proof (intro conjI impI)
  show "format_parameters rt [] = ''None''"
    by (simp add: format_parameters_def)
  show "join '', '' (param_strs rt ((k, v) # ps)) =
        (py_str rt k @ ''='' @ v) @ concat (map (\<lambda>kv. '', '' @ py_str rt (fst kv) @ ''='' @ snd kv) ps)"
    by (simp add: param_strs_def join_Cons comp_def)
next
  assume "length (join '', '' (param_strs rt ((k, v) # ps))) \<le> 25"
  then show "format_parameters rt ((k, v) # ps) = join '', '' (param_strs rt ((k, v) # ps))"
    by (simp add: format_parameters_def Let_def)
next
  assume long: "25 < length (join '', '' (param_strs rt ((k, v) # ps)))"
  then show eq: "format_parameters rt ((k, v) # ps)
                   = take 22 (join '', '' (param_strs rt ((k, v) # ps))) @ ''...''"
    by (simp add: format_parameters_def Let_def)
  from long show len: "length (format_parameters rt ((k, v) # ps)) = 25"
    unfolding eq by simp
  from long len show "format_parameters rt ((k, v) # ps) \<noteq> join '', '' (param_strs rt ((k, v) # ps))"
    by (metis less_irrefl)
qed

theorem format_parameters_rule_witness:
  "format_parameters
     \<lparr>container_str = (\<lambda>j. []), strftime_local = (\<lambda>i. None), exc_text = (\<lambda>e. []),
        server = (\<lambda>n u. RequestFailed [])\<rparr>
     [(JStr ''BRANCH'', ''main''), (JStr ''ENV'', ''qa''), (JStr ''N'', ''12'')]
     = ''BRANCH=main, ENV=qa, N=12''
   \<and> format_parameters
     \<lparr>container_str = (\<lambda>j. []), strftime_local = (\<lambda>i. None), exc_text = (\<lambda>e. []),
        server = (\<lambda>n u. RequestFailed [])\<rparr>
     [(JStr ''BRANCH'', ''main''), (JStr ''ENV'', ''qa''), (JStr ''N'', ''123'')]
     = ''BRANCH=main, ENV=qa, N...''"
  using format_parameters_rule [of
          "\<lparr>container_str = (\<lambda>j. []), strftime_local = (\<lambda>i. None), exc_text = (\<lambda>e. []),
        server = (\<lambda>n u. RequestFailed [])\<rparr>"
          "JStr ''BRANCH''" "''main''" "[(JStr ''ENV'', ''qa''), (JStr ''N'', ''12'')]"]
        format_parameters_rule [of
          "\<lparr>container_str = (\<lambda>j. []), strftime_local = (\<lambda>i. None), exc_text = (\<lambda>e. []),
        server = (\<lambda>n u. RequestFailed [])\<rparr>"
          "JStr ''BRANCH''" "''main''" "[(JStr ''ENV'', ''qa''), (JStr ''N'', ''123'')]"]
  by (simp add: param_strs_def)

subsection \<open>C9: status of a colour\<close>

text \<open>
  C9. For a string, \<^verbatim>\<open>_color_to_status\<close> returns the value of the table, and
  \<^verbatim>\<open>"UNKNOWN"\<close> for every string that is not a key of the table; the result is
  always one of the eight status strings.
\<close>

theorem color_to_status_table:
  "color_to_status (JStr ''blue'') = Inr ''SUCCESS''
   \<and> color_to_status (JStr ''red'') = Inr ''FAILURE''
   \<and> color_to_status (JStr ''yellow'') = Inr ''UNSTABLE''
   \<and> color_to_status (JStr ''grey'') = Inr ''NOT_BUILT''
   \<and> color_to_status (JStr ''disabled'') = Inr ''DISABLED''
   \<and> color_to_status (JStr ''aborted'') = Inr ''ABORTED''
   \<and> color_to_status (JStr ''blue_anime'') = Inr ''BUILDING''
   \<and> color_to_status (JStr ''red_anime'') = Inr ''BUILDING''
   \<and> color_to_status (JStr ''yellow_anime'') = Inr ''BUILDING''
   \<and> (c \<notin> {''blue'', ''red'', ''yellow'', ''grey'', ''disabled'', ''aborted'',
              ''blue_anime'', ''red_anime'', ''yellow_anime''}
        \<longrightarrow> color_to_status (JStr c) = Inr ''UNKNOWN'')
   \<and> (\<exists>s. color_to_status (JStr c) = Inr s
          \<and> s \<in> {''SUCCESS'', ''FAILURE'', ''UNSTABLE'', ''NOT_BUILT'', ''DISABLED'',
                  ''ABORTED'', ''BUILDING'', ''UNKNOWN''})"
  by (simp add: color_map_def)

theorem color_to_status_table_witness:
  "''purple'' \<notin> {''blue'', ''red'', ''yellow'', ''grey'', ''disabled'', ''aborted'',
              ''blue_anime'', ''red_anime'', ''yellow_anime''}
   \<and> color_to_status (JStr ''purple'') = Inr ''UNKNOWN''"
  using color_to_status_table [of "''purple''"] by simp

subsection \<open>C10: parameters with a false value\<close>

text \<open>
  C10, as the code has it. A name is no key of the returned dict when every parameter of
  that name has a false value; a parameter with a false value changes nothing, the loop
  over a list with it gives what the loop over the list without it gives; and
  \<^verbatim>\<open>False\<close>, \<^verbatim>\<open>0\<close>, \<^verbatim>\<open>None\<close>, the empty list, the empty dict and the
  empty string are false.
\<close>

theorem extract_parameters_falsy:
  "(py_iter actions = Inr as \<and> extract_parameters rt actions = Inr d
      \<and> (\<forall>p\<in>set (all_parameters as). py_eq (param_name p) k \<longrightarrow> \<not> truthy (param_value p))
      \<longrightarrow> dict_get d k = None)
   \<and> (\<not> truthy (get_default pkv ''value'' (JStr []))
      \<longrightarrow> params_loop rt d0 (pre @ JObj pkv # post) = params_loop rt d0 (pre @ post))
   \<and> \<not> truthy (JBool False) \<and> \<not> truthy (JInt 0) \<and> \<not> truthy JNull
   \<and> \<not> truthy (JList []) \<and> \<not> truthy (JObj []) \<and> \<not> truthy (JStr [])"
proof (intro conjI impI)
  assume a: "py_iter actions = Inr as \<and> extract_parameters rt actions = Inr d
      \<and> (\<forall>p\<in>set (all_parameters as). py_eq (param_name p) k \<longrightarrow> \<not> truthy (param_value p))"
  then have "dict_get d k = spec_parameters rt as k"
    using extract_parameters_get by blast
  moreover from a have "last_param k (all_parameters as) = None"
    using last_param_None by blast
  ultimately show "dict_get d k = None" by (simp add: spec_parameters_def)
next
  assume "\<not> truthy (get_default pkv ''value'' (JStr []))"
  then show "params_loop rt d0 (pre @ JObj pkv # post) = params_loop rt d0 (pre @ post)"
    by (rule params_loop_drop)
qed simp_all

theorem extract_parameters_falsy_witness:
  "extract_parameters
     \<lparr>container_str = (\<lambda>j. []), strftime_local = (\<lambda>i. None), exc_text = (\<lambda>e. []),
        server = (\<lambda>n u. RequestFailed [])\<rparr>
     (JList [JObj [(''_class'', JStr ''hudson.model.ParametersAction''),
                   (''parameters'', JList [JObj [(''name'', JStr ''DEBUG''), (''value'', JBool False)],
                                           JObj [(''name'', JStr ''COUNT''), (''value'', JInt 0)],
                                           JObj [(''name'', JStr ''ENV''), (''value'', JStr ''prod'')]])]])
     = Inr [(JStr ''ENV'', ''prod'')]
   \<and> dict_get [(JStr ''ENV'', ''prod'')] (JStr ''DEBUG'') = None"
proof -
  let ?rt = "\<lparr>container_str = (\<lambda>j. []), strftime_local = (\<lambda>i. None), exc_text = (\<lambda>e. []),
        server = (\<lambda>n u. RequestFailed [])\<rparr>"
  let ?as = "[JObj [(''_class'', JStr ''hudson.model.ParametersAction''),
                   (''parameters'', JList [JObj [(''name'', JStr ''DEBUG''), (''value'', JBool False)],
                                           JObj [(''name'', JStr ''COUNT''), (''value'', JInt 0)],
                                           JObj [(''name'', JStr ''ENV''), (''value'', JStr ''prod'')]])]]"
  have ex: "extract_parameters ?rt (JList ?as) = Inr [(JStr ''ENV'', ''prod'')]"
    by (simp add: extract_parameters_def bind_exn_def param_step_def get_default_def)
  have ap: "all_parameters ?as =
              [JObj [(''name'', JStr ''DEBUG''), (''value'', JBool False)],
               JObj [(''name'', JStr ''COUNT''), (''value'', JInt 0)],
               JObj [(''name'', JStr ''ENV''), (''value'', JStr ''prod'')]]"
    by (simp add: all_parameters_def action_parameters_def get_default_def)
  have hyp: "\<forall>p\<in>set (all_parameters ?as).
               py_eq (param_name p) (JStr ''DEBUG'') \<longrightarrow> \<not> truthy (param_value p)"
    unfolding ap by (simp add: param_name_def param_value_def get_default_def)
  have "py_iter (JList ?as) = Inr ?as \<and> extract_parameters ?rt (JList ?as) = Inr [(JStr ''ENV'', ''prod'')]
      \<and> (\<forall>p\<in>set (all_parameters ?as).
               py_eq (param_name p) (JStr ''DEBUG'') \<longrightarrow> \<not> truthy (param_value p))"
    using ex hyp by simp
  with extract_parameters_falsy [of "JList ?as" ?as ?rt "[(JStr ''ENV'', ''prod'')]" "JStr ''DEBUG''",
         THEN conjunct1]
  have "dict_get [(JStr ''ENV'', ''prod'')] (JStr ''DEBUG'') = None"
    by (rule mp)
  with ex show ?thesis by (intro conjI)
qed

text \<open>
  C10 as first stated, that the name of a parameter with a false value is never a key,
  does not hold when another parameter of the same name has a true value.
\<close>

theorem falsy_name_kept_counterexample:
  "extract_parameters
     \<lparr>container_str = (\<lambda>j. []), strftime_local = (\<lambda>i. None), exc_text = (\<lambda>e. []),
        server = (\<lambda>n u. RequestFailed [])\<rparr>
     (JList [JObj [(''_class'', JStr ''hudson.model.ParametersAction''),
                   (''parameters'', JList [JObj [(''name'', JStr ''A''), (''value'', JInt 0)],
                                           JObj [(''name'', JStr ''A''), (''value'', JStr ''x'')]])]])
     = Inr [(JStr ''A'', ''x'')]
   \<and> dict_get [(JStr ''A'', ''x'')] (JStr ''A'') = Some ''x''"
  by (simp add: extract_parameters_def bind_exn_def param_step_def get_default_def dict_get_def)

end
